theory Spec2Isabelle
  imports Main
begin

section \<open>Python values\<close>

text \<open>
  Values decoded from JSON (tool arguments, relay frames, relay results). Numbers are
  integers: the relay's command ids are Python ints and the peer echoes them. An object is
  the association list of the decoded dict; lookups take the first binding of a key.
  A string is the list of its characters, one element for each character of the Python
  string.
\<close>

datatype json =
    JNull
  | JBool bool
  | JInt int
  | JStr string
  | JArr "json list"
  | JObj "(string \<times> json) list"

text \<open>
  Exceptions that cross a \<open>try\<close> of the source. \<open>RuntimeError\<close> and \<open>TimeoutError\<close>
  carry the message the source gives them, \<open>Exception\<close> the JSON value of a relay frame's
  \<open>error\<close> field, \<open>OtherError\<close> the message of an error of the file system or of a
  decoder. The others are raised by the interpreter or a library; their message text is not
  in the source.
\<close>

datatype exn =
    RuntimeError string
  | TimeoutError string
  | Exception json
  | ConnectionClosed
  | CancelledError
  | AttributeError
  | TypeError
  | KeyError
  | UnboundLocalError string
  | OtherError string

text \<open>
  \<open>except Exception\<close> catches every one of these but \<open>asyncio.CancelledError\<close>, which derives
  from \<open>BaseException\<close> alone.
\<close>

definition is_Exception :: "exn \<Rightarrow> bool" where
  "is_Exception e = (e \<noteq> CancelledError)"

text \<open>Python truthiness, as \<open>if x\<close> and \<open>not x\<close> read a decoded value.\<close>

fun truthy :: "json \<Rightarrow> bool" where
  "truthy JNull = False"
| "truthy (JBool b) = b"
| "truthy (JInt n) = (n \<noteq> 0)"
| "truthy (JStr s) = (s \<noteq> [])"
| "truthy (JArr xs) = (xs \<noteq> [])"
| "truthy (JObj kv) = (kv \<noteq> [])"

text \<open>\<open>str(x)\<close>: a string is itself; any other value prints as its \<open>repr\<close>, a parameter.\<close>

fun py_str :: "(json \<Rightarrow> string) \<Rightarrow> json \<Rightarrow> string" where
  "py_str repr (JStr s) = s"
| "py_str repr j = repr j"

text \<open>
  \<open>str(e)\<close>; \<open>interp\<close> gives the message of the exceptions the source does not construct.
\<close>

fun str_exn :: "(json \<Rightarrow> string) \<Rightarrow> (exn \<Rightarrow> string) \<Rightarrow> exn \<Rightarrow> string" where
  "str_exn repr interp (RuntimeError m) = m"
| "str_exn repr interp (TimeoutError m) = m"
| "str_exn repr interp (Exception j) = py_str repr j"
| "str_exn repr interp (OtherError m) = m"
| "str_exn repr interp e = interp e"

text \<open>
  Operations on a decoded value of any type. \<open>k in x\<close> tests a key of a dict, an element of
  a list, a substring of a string, and raises on the other types; \<open>x[k]\<close> with a string
  \<open>k\<close> reads a dict and raises on the rest; \<open>x.get(k, d)\<close> exists for a dict alone.
\<close>

fun is_infix :: "string \<Rightarrow> string \<Rightarrow> bool" where
  "is_infix k [] = (k = [])"
| "is_infix k (c # cs) = (take (length k) (c # cs) = k \<or> is_infix k cs)"

fun py_in :: "string \<Rightarrow> json \<Rightarrow> exn + bool" where
  "py_in k (JObj kv) = Inr (map_of kv k \<noteq> None)"
| "py_in k (JArr xs) = Inr (JStr k \<in> set xs)"
| "py_in k (JStr s) = Inr (is_infix k s)"
| "py_in k j = Inl TypeError"

fun py_getitem :: "json \<Rightarrow> string \<Rightarrow> exn + json" where
  "py_getitem (JObj kv) k = (case map_of kv k of None \<Rightarrow> Inl KeyError | Some v \<Rightarrow> Inr v)"
| "py_getitem j k = Inl TypeError"

fun py_get :: "json \<Rightarrow> string \<Rightarrow> json \<Rightarrow> exn + json" where
  "py_get (JObj kv) k d = Inr (case map_of kv k of None \<Rightarrow> d | Some v \<Rightarrow> v)"
| "py_get j k d = Inl AttributeError"

text \<open>\<open>str(n)\<close> for an int.\<close>

function str_nat :: "nat \<Rightarrow> string" where
  "str_nat n = (if n < 10 then [''0123456789'' ! n]
                else str_nat (n div 10) @ [''0123456789'' ! (n mod 10)])"
  by pat_completeness auto
termination
  by (relation "measure (\<lambda>n. n)") auto

definition str_int :: "int \<Rightarrow> string" where
  "str_int i = (if i < 0 then ''-'' @ str_nat (nat (- i)) else str_nat (nat i))"

subsection \<open>String methods\<close>

definition startswith :: "string \<Rightarrow> string \<Rightarrow> bool" where
  "startswith s p = (take (length p) s = p)"

text \<open>\<open>s.replace(old, new)\<close> for a non-empty \<open>old\<close>: every occurrence, left to right.\<close>

function py_replace :: "string \<Rightarrow> string \<Rightarrow> string \<Rightarrow> string" where
  "py_replace old new [] = []"
| "py_replace old new (c # cs) =
     (if old \<noteq> [] \<and> startswith (c # cs) old
      then new @ py_replace old new (drop (length old) (c # cs))
      else c # py_replace old new cs)"
  by pat_completeness auto
termination
  by (relation "measure (\<lambda>(old, new, s). length s)") auto

text \<open>
  The characters \<open>str.strip()\<close> removes, among those a \<open>char\<close> can hold: the ASCII
  white space and separators, U+0085 and U+00A0.
\<close>

definition is_space :: "char \<Rightarrow> bool" where
  "is_space c = (c \<in> set [CHR '' '', CHR 0x09, CHR 0x0A, CHR 0x0B, CHR 0x0C, CHR 0x0D,
                            CHR 0x1C, CHR 0x1D, CHR 0x1E, CHR 0x1F, CHR 0x85, CHR 0xA0])"

definition py_strip :: "string \<Rightarrow> string" where
  "py_strip s = rev (dropWhile is_space (rev (dropWhile is_space s)))"

text \<open>\<open>s.split(sep, maxsplit)\<close> for a one-character separator.\<close>

fun py_split :: "char \<Rightarrow> nat \<Rightarrow> string \<Rightarrow> string list" where
  "py_split sep 0 s = [s]"
| "py_split sep (Suc n) s =
     (if sep \<in> set s
      then takeWhile (\<lambda>c. c \<noteq> sep) s # py_split sep n (tl (dropWhile (\<lambda>c. c \<noteq> sep) s))
      else [s])"

section \<open>The agent loop (nanobot/agent/loop.py)\<close>

subsection \<open>Messages, sessions, the provider and the tools\<close>

record inbound_message =
  channel :: string
  sender_id :: string
  chat_id :: string
  content :: string
  media :: "string list"
  metadata :: "(string \<times> json) list"
  session_key :: string

text \<open>\<open>out_content\<close> is an option: the loop can hand Python's \<open>None\<close> to the constructor.\<close>

record outbound_message =
  out_channel :: string
  out_chat_id :: string
  out_content :: "string option"
  out_media :: "string list"

text \<open>A turn of a session; the timestamp a session adds is left out.\<close>

record turn =
  role :: string
  turn_content :: string
  turn_media :: "string list option"

record tool_call =
  tc_id :: string
  tc_name :: string
  tc_arguments :: json

text \<open>The entry of an assistant message's \<open>tool_calls\<close> list.\<close>

record wire_call =
  wc_id :: string
  wc_type :: string
  wc_name :: string
  wc_arguments :: string

text \<open>An entry of the working transcript: a dict with these keys, the last two optional.\<close>

record chat_message =
  msg_role :: string
  msg_content :: string
  msg_tool_calls :: "wire_call list option"
  msg_tool_call_id :: "string option"

text \<open>
  What \<open>provider.chat\<close> does: it raises an exception \<open>e\<close> (\<open>ChatRaised (str e)\<close>) or returns a
  response with \<open>content\<close> (possibly \<open>None\<close>) and \<open>tool_calls\<close>.
\<close>

datatype llm_result =
    ChatRaised string
  | ChatReply "string option" "tool_call list"

text \<open>
  The collaborators of the loop, none of them in the source: the provider; the tool registry
  (\<open>Inl m\<close>: \<open>execute\<close> raised \<open>e\<close> with \<open>str e = m\<close>); \<open>set_context\<close> of the tool
  registered under a name (nothing happens when it is no message or spawn tool);
  \<open>json.dumps\<close>; the context builder, applied to the session's turns; the \<open>repr\<close> of values
  and the message of interpreter exceptions. Provider and tools act on a world \<open>'w\<close> of
  their own. The tool definitions passed to \<open>chat\<close> are fixed by the registry and part of
  \<open>chat\<close>.
\<close>

record 'w agent_env =
  chat :: "'w \<Rightarrow> chat_message list \<Rightarrow> llm_result \<times> 'w"
  tools_execute :: "'w \<Rightarrow> string \<Rightarrow> json \<Rightarrow> (string + string) \<times> 'w"
  set_context :: "'w \<Rightarrow> string \<Rightarrow> string \<Rightarrow> string \<Rightarrow> 'w"
  json_dumps :: "json \<Rightarrow> string"
  build_messages :: "turn list \<Rightarrow> string \<Rightarrow> string list option \<Rightarrow> chat_message list"
  value_repr :: "json \<Rightarrow> string"
  exn_text :: "exn \<Rightarrow> string"
  max_iterations :: int

text \<open>
  The state the loop works on: the session store, the outbound queue of the bus, the world of
  provider and tools, and the transcripts \<open>provider.chat\<close> has been called with, one entry per
  call.
\<close>

record 'w agent_state =
  sessions :: "string \<Rightarrow> turn list option"
  outbound :: "outbound_message list"
  world :: 'w
  llm_log :: "chat_message list list"

text \<open>
  Modelled from the spec: the session manager is not in the source. There is one session
  per key, created empty on first use and never deleted.
\<close>

definition get_or_create :: "(string \<Rightarrow> turn list option) \<Rightarrow> string \<Rightarrow> (string \<Rightarrow> turn list option)" where
  "get_or_create ss key = (case ss key of None \<Rightarrow> ss(key \<mapsto> []) | Some _ \<Rightarrow> ss)"

text \<open>
  Modelled from the spec: the session class is not in the source. The history of a session is
  the ordered sequence of its turns.
\<close>

definition get_history :: "(string \<Rightarrow> turn list option) \<Rightarrow> string \<Rightarrow> turn list" where
  "get_history ss key = (case ss key of None \<Rightarrow> [] | Some ts \<Rightarrow> ts)"

text \<open>
  Modelled from the spec: the session class is not in the source. Appending adds one turn,
  with role, content and media, at the end of the session of the key.
\<close>

definition add_message ::
  "(string \<Rightarrow> turn list option) \<Rightarrow> string \<Rightarrow> string \<Rightarrow> string \<Rightarrow> string list option
    \<Rightarrow> (string \<Rightarrow> turn list option)" where
  "add_message ss key r c m =
     ss(key \<mapsto> get_history ss key @ [\<lparr>role = r, turn_content = c, turn_media = m\<rparr>])"

subsection \<open>System announcements\<close>

definition process_system_message :: "inbound_message \<Rightarrow> outbound_message option" where
  "process_system_message msg =
     (let parts = py_split CHR '':'' 2 (content msg) in
      if length parts < 3 then None
      else Some \<lparr>out_channel = parts ! 0,
                 out_chat_id = parts ! 1,
                 out_content = Some (''Subagent task completed:\<newline>'' @ parts ! 2),
                 out_media = []\<rparr>)"

subsection \<open>One message\<close>

text \<open>The local variables of \<open>_process_message\<close>; \<open>tool_calls = None\<close> is the unbound variable.\<close>

record 'w loop_state =
  iteration :: int
  final_content :: "string option"
  tool_calls :: "tool_call list option"
  messages :: "chat_message list"
  media_from_tool_results :: "string list"
  loop_world :: 'w
  loop_log :: "chat_message list list"

definition wire :: "'w agent_env \<Rightarrow> tool_call \<Rightarrow> wire_call" where
  "wire env tc = \<lparr>wc_id = tc_id tc, wc_type = ''function'', wc_name = tc_name tc,
                  wc_arguments = json_dumps env (tc_arguments tc)\<rparr>"

definition tool_message :: "string \<Rightarrow> string \<Rightarrow> chat_message" where
  "tool_message cid result =
     \<lparr>msg_role = ''tool'', msg_content = result, msg_tool_calls = None,
      msg_tool_call_id = Some cid\<rparr>"

text \<open>The \<open>for tool_call in tool_calls\<close> loop, on transcript, media list and world.\<close>

fun execute_tools ::
  "'w agent_env \<Rightarrow> tool_call list \<Rightarrow> chat_message list \<times> string list \<times> 'w
    \<Rightarrow> chat_message list \<times> string list \<times> 'w" where
  "execute_tools env [] acc = acc"
| "execute_tools env (tc # tcs) (msgs, med, w) =
     (case tools_execute env w (tc_name tc) (tc_arguments tc) of
        (Inr result, w') \<Rightarrow>
          execute_tools env tcs
            (msgs @ [tool_message (tc_id tc) result],
             (if tc_name tc = ''browser_use'' \<and> startswith result ''Screenshot saved to ''
              then med @ [py_strip (py_replace ''Screenshot saved to '' [] result)]
              else med),
             w')
      | (Inl e, w') \<Rightarrow>
          execute_tools env tcs
            (msgs @ [tool_message (tc_id tc) (''Error: '' @ e)], med, w'))"

datatype flow = Break | Continue

text \<open>One pass through the body of \<open>while iteration < self.max_iterations\<close>.\<close>

definition loop_body :: "'w agent_env \<Rightarrow> 'w loop_state \<Rightarrow> flow \<times> 'w loop_state" where
  "loop_body env s0 =
     (let s = s0\<lparr>iteration := iteration s0 + 1\<rparr> in
      case chat env (loop_world s) (messages s) of
        (ChatRaised e, w) \<Rightarrow>
          (Break, s\<lparr>final_content := Some (''Error calling LLM: '' @ e),
                    loop_world := w, loop_log := loop_log s @ [messages s]\<rparr>)
      | (ChatReply c tcs, w) \<Rightarrow>
          (let response_text = (case c of None \<Rightarrow> [] | Some t \<Rightarrow> t);
               m = \<lparr>msg_role = ''assistant'', msg_content = response_text,
                    msg_tool_calls = (if tcs \<noteq> [] then Some (map (wire env) tcs) else None),
                    msg_tool_call_id = None\<rparr>;
               s1 = s\<lparr>tool_calls := Some tcs, messages := messages s @ [m],
                      loop_world := w, loop_log := loop_log s @ [messages s]\<rparr>
           in if tcs = [] then (Break, s1\<lparr>final_content := Some response_text\<rparr>)
              else (case execute_tools env tcs
                           (messages s1, media_from_tool_results s1, loop_world s1) of
                      (msgs, med, w') \<Rightarrow>
                        (Continue, s1\<lparr>messages := msgs, media_from_tool_results := med,
                                      loop_world := w'\<rparr>))))"

lemma loop_body_iteration:
  "loop_body env s = (f, s') \<Longrightarrow> iteration s' = iteration s + 1"
  by (auto simp: loop_body_def Let_def split: prod.splits llm_result.splits if_splits)

function agent_loop :: "'w agent_env \<Rightarrow> 'w loop_state \<Rightarrow> 'w loop_state" where
  "agent_loop env s =
     (if iteration s < max_iterations env
      then (case loop_body env s of
              (Break, s') \<Rightarrow> s'
            | (Continue, s') \<Rightarrow> agent_loop env s')
      else s)"
  by pat_completeness auto
termination
  by (relation "measure (\<lambda>(env, s). nat (max_iterations env - iteration s))")
     (auto dest: loop_body_iteration [OF sym])

declare agent_loop.simps [simp del]

text \<open>The locals before the loop: \<open>set_context\<close> on both tools, the transcript built.\<close>

definition initial_loop_state ::
  "'w agent_env \<Rightarrow> 'w agent_state \<Rightarrow> inbound_message \<Rightarrow> 'w loop_state" where
  "initial_loop_state env st msg =
     \<lparr>iteration = 0, final_content = None, tool_calls = None,
      messages = build_messages env
                   (get_history (get_or_create (sessions st) (session_key msg)) (session_key msg))
                   (content msg) (if media msg \<noteq> [] then Some (media msg) else None),
      media_from_tool_results = [],
      loop_world = set_context env
                     (set_context env (world st) ''message'' (channel msg) (chat_id msg))
                     ''spawn'' (channel msg) (chat_id msg),
      loop_log = llm_log st\<rparr>"

definition fallback_text :: string where
  "fallback_text = ''I'm not sure how to respond to that.''"

definition emit :: "inbound_message \<Rightarrow> 'w loop_state \<Rightarrow> string option \<Rightarrow> outbound_message" where
  "emit msg s c = \<lparr>out_channel = channel msg, out_chat_id = chat_id msg, out_content = c,
                  out_media = media_from_tool_results s\<rparr>"

text \<open>
  \<open>_process_message\<close>. \<open>Inl e\<close>: the exception \<open>e\<close> leaves the method; \<open>Inr None\<close>: it returns
  \<open>None\<close>. An empty string and \<open>None\<close> are both false for \<open>if final_content\<close>.
\<close>

definition process_message ::
  "'w agent_env \<Rightarrow> 'w agent_state \<Rightarrow> inbound_message
    \<Rightarrow> (exn + outbound_message option) \<times> 'w agent_state" where
  "process_message env st msg =
     (if channel msg = ''system'' then (Inr (process_system_message msg), st)
      else
        (let key = session_key msg;
             ss0 = get_or_create (sessions st) key;
             s = agent_loop env (initial_loop_state env st msg);
             ss1 = add_message ss0 key ''user'' (content msg) (Some (media msg));
             has_final = (case final_content s of None \<Rightarrow> False | Some t \<Rightarrow> t \<noteq> []);
             ss2 = (if has_final
                    then add_message ss1 key ''assistant''
                           (case final_content s of None \<Rightarrow> [] | Some t \<Rightarrow> t) None
                    else ss1);
             st' = st\<lparr>sessions := ss2, world := loop_world s, llm_log := loop_log s\<rparr>
         in if has_final then (Inr (Some (emit msg s (final_content s))), st')
            else (case tool_calls s of
                    None \<Rightarrow> (Inl (UnboundLocalError ''tool_calls''), st')
                  | Some tcs \<Rightarrow>
                      if tcs = [] then (Inr (Some (emit msg s (Some fallback_text))), st')
                      else (Inr (Some (emit msg s (final_content s))), st'))))"

text \<open>
  The body of the \<open>while self._running\<close> loop of \<open>run\<close> for a dequeued message: a response is
  published, a raised exception becomes an error message to the sender's chat.
\<close>

definition run_iteration :: "'w agent_env \<Rightarrow> 'w agent_state \<Rightarrow> inbound_message \<Rightarrow> 'w agent_state" where
  "run_iteration env st msg =
     (case process_message env st msg of
        (Inr (Some response), st') \<Rightarrow> st'\<lparr>outbound := outbound st' @ [response]\<rparr>
      | (Inr None, st') \<Rightarrow> st'
      | (Inl e, st') \<Rightarrow>
          st'\<lparr>outbound := outbound st' @
                [\<lparr>out_channel = channel msg, out_chat_id = chat_id msg,
                  out_content = Some (''Sorry, I encountered an error: ''
                                       @ str_exn (value_repr env) (exn_text env) e),
                  out_media = []\<rparr>]\<rparr>)"

section \<open>The browser relay (nanobot/agent/tools/browser.py)\<close>

subsection \<open>State\<close>

text \<open>An \<open>asyncio.Future\<close>: pending, or done with a result, an exception or a cancellation.\<close>

datatype future = Pending | Result json | Raised exn | Cancelled

text \<open>
  The fields of \<open>BrowserRelay\<close> (\<open>running\<close> is \<open>_running\<close>, \<open>server\<close> tells whether
  \<open>self.server\<close> is set, a websocket is the number of its connection), and with them what
  the relay shares with the event loop and the network: the futures it created
  (\<open>pending_commands\<close> holds references into \<open>futures\<close>, cells from \<open>next_future\<close> on are not
  yet allocated), which websockets still accept a send, and the frames handed to
  \<open>websocket.send\<close> without error, in order, as the values given to \<open>json.dumps\<close>.
\<close>

record relay =
  port :: int
  server :: bool
  extension_ws :: "nat option"
  command_id :: int
  pending_commands :: "int \<Rightarrow> nat option"
  running :: bool
  futures :: "nat \<Rightarrow> future"
  next_future :: nat
  ws_open :: "nat \<Rightarrow> bool"
  sent :: "(nat \<times> json) list"

definition DEFAULT_RELAY_PORT :: int where
  "DEFAULT_RELAY_PORT = 18792"

definition RELAY_PATH :: string where
  "RELAY_PATH = ''/extension''"

definition new_relay :: "int \<Rightarrow> relay" where
  "new_relay p = \<lparr>port = p, server = False, extension_ws = None, command_id = 0,
                  pending_commands = Map.empty, running = False,
                  futures = (\<lambda>f. Pending), next_future = 0,
                  ws_open = (\<lambda>ws. False), sent = []\<rparr>"

text \<open>\<open>start\<close>; \<open>bound\<close> tells whether \<open>serve\<close> could bind the port (\<open>OSError\<close> otherwise).\<close>

definition start :: "relay \<Rightarrow> bool \<Rightarrow> relay" where
  "start r bound =
     (if running r then r
      else if bound then r\<lparr>running := True, server := True\<rparr>
      else r\<lparr>running := False\<rparr>)"

text \<open>\<open>await websocket.send(payload)\<close>: a closed websocket raises \<open>ConnectionClosed\<close>.\<close>

definition ws_send :: "relay \<Rightarrow> nat \<Rightarrow> json \<Rightarrow> exn + relay" where
  "ws_send r ws payload =
     (if ws_open r ws then Inr (r\<lparr>sent := sent r @ [(ws, payload)]\<rparr>)
      else Inl ConnectionClosed)"

subsection \<open>Connections and inbound frames\<close>

text \<open>
  \<open>_handle_connection\<close> in two halves: up to the first frame, and the \<open>finally\<close> block that
  runs when the iteration over the websocket ends (only a connection on \<open>RELAY_PATH\<close> gets
  there).
\<close>

definition connection_opened :: "relay \<Rightarrow> nat \<Rightarrow> string \<Rightarrow> relay" where
  "connection_opened r ws path =
     (if path \<noteq> RELAY_PATH then r else r\<lparr>extension_ws := Some ws\<rparr>)"

definition connection_closed :: "relay \<Rightarrow> nat \<Rightarrow> relay" where
  "connection_closed r ws =
     (if extension_ws r = Some ws then r\<lparr>extension_ws := None\<rparr> else r)"

text \<open>
  \<open>cmd_id in self.pending_commands\<close> for a decoded id. The keys of the table are ints; a
  bool equals and hashes as 0 or 1, a string or null equals no key, a list or dict cannot be
  hashed.
\<close>

fun dict_key :: "json \<Rightarrow> exn + int option" where
  "dict_key (JInt n) = Inr (Some n)"
| "dict_key (JBool b) = Inr (Some (if b then 1 else 0))"
| "dict_key JNull = Inr None"
| "dict_key (JStr s) = Inr None"
| "dict_key (JArr xs) = Inl TypeError"
| "dict_key (JObj kv) = Inl TypeError"

text \<open>The branch of \<open>_handle_message\<close> that answers a command: pop, then settle if not done.\<close>

definition resolve :: "relay \<Rightarrow> (string \<times> json) list \<Rightarrow> int \<Rightarrow> nat \<Rightarrow> relay" where
  "resolve r kv k f =
     (let r1 = r\<lparr>pending_commands := (pending_commands r)(k := None)\<rparr> in
      if futures r1 f = Pending
      then (case map_of kv ''error'' of
              Some err \<Rightarrow> r1\<lparr>futures := (futures r1)(f := Raised (Exception err))\<rparr>
            | None \<Rightarrow>
                r1\<lparr>futures := (futures r1)
                       (f := Result (case map_of kv ''result'' of None \<Rightarrow> JNull | Some v \<Rightarrow> v))\<rparr>)
      else r1)"

text \<open>
  The body of the \<open>try\<close> of \<open>_handle_message\<close> on the decoded frame. \<open>Inl e\<close>: \<open>e\<close> was raised;
  everything that raises does so before the relay has changed. A frame that is no dict raises
  in every case: \<open>data["id"]\<close> when the first test passes on a list or a string,
  \<open>data.get\<close> when it does not, \<open>"id" in data\<close> on the other types.
\<close>

fun handle_message_body :: "relay \<Rightarrow> json \<Rightarrow> exn + relay" where
  "handle_message_body r (JObj kv) =
     (if map_of kv ''id'' \<noteq> None \<and> (map_of kv ''result'' \<noteq> None \<or> map_of kv ''error'' \<noteq> None)
      then (case dict_key (case map_of kv ''id'' of None \<Rightarrow> JNull | Some v \<Rightarrow> v) of
              Inl e \<Rightarrow> Inl e
            | Inr None \<Rightarrow> Inr r
            | Inr (Some k) \<Rightarrow>
                (case pending_commands r k of
                   None \<Rightarrow> Inr r
                 | Some f \<Rightarrow> Inr (resolve r kv k f)))
      else if map_of kv ''method'' = Some (JStr ''ping'')
      then (case extension_ws r of
              None \<Rightarrow> Inl AttributeError
            | Some ws \<Rightarrow> ws_send r ws (JObj [(''method'', JStr ''pong'')]))
      else Inr r)"
| "handle_message_body r (JArr xs) =
     (if JStr ''id'' \<in> set xs \<and> (JStr ''result'' \<in> set xs \<or> JStr ''error'' \<in> set xs)
      then Inl TypeError else Inl AttributeError)"
| "handle_message_body r (JStr s) =
     (if is_infix ''id'' s \<and> (is_infix ''result'' s \<or> is_infix ''error'' s)
      then Inl TypeError else Inl AttributeError)"
| "handle_message_body r j = Inl TypeError"

text \<open>
  \<open>_handle_message\<close>; the message is \<open>None\<close> when \<open>json.loads\<close> raises. Every exception is
  logged and dropped.
\<close>

definition handle_message :: "relay \<Rightarrow> json option \<Rightarrow> relay" where
  "handle_message r message =
     (case message of
        None \<Rightarrow> r
      | Some data \<Rightarrow> (case handle_message_body r data of Inl e \<Rightarrow> r | Inr r' \<Rightarrow> r'))"

subsection \<open>Commands\<close>

definition not_connected :: string where
  "not_connected =
     ''Browser extension not connected. Please install the OpenClaw Browser Relay extension.''"

definition envelope :: "int \<Rightarrow> string \<Rightarrow> json \<Rightarrow> json" where
  "envelope cmd_id method params =
     JObj [(''id'', JInt cmd_id),
           (''method'', JStr ''forwardCDPCommand''),
           (''params'', JObj [(''method'', JStr method),
                              (''params'', (if truthy params then params else JObj []))])]"

text \<open>
  \<open>send_command\<close> up to and including \<open>await self.extension_ws.send\<close>. It returns the id and
  the future of the command, or the exception that ends the call there.
\<close>

definition send_command_begin ::
  "relay \<Rightarrow> string \<Rightarrow> json \<Rightarrow> (exn + int \<times> nat) \<times> relay" where
  "send_command_begin r method params =
     (case extension_ws r of
        None \<Rightarrow> (Inl (RuntimeError not_connected), r)
      | Some ws \<Rightarrow>
          (let cmd_id = command_id r + 1;
               f = next_future r;
               r1 = r\<lparr>command_id := cmd_id,
                      futures := (futures r)(f := Pending),
                      next_future := Suc f,
                      pending_commands := (pending_commands r)(cmd_id \<mapsto> f)\<rparr>
           in case ws_send r1 ws (envelope cmd_id method params) of
                Inl e \<Rightarrow> (Inl e, r1)
              | Inr r2 \<Rightarrow> (Inr (cmd_id, f), r2)))"

text \<open>
  The end of \<open>await asyncio.wait_for(future, timeout=30.0)\<close>. A done future gives its result
  or raises its exception. A future still pending when the wait ends is the timeout:
  \<open>wait_for\<close> cancels it, and the handler of \<open>asyncio.TimeoutError\<close> deletes the entry if it is
  there and raises \<open>TimeoutError\<close>.
\<close>

definition send_command_wait :: "relay \<Rightarrow> int \<Rightarrow> nat \<Rightarrow> (exn + json) \<times> relay" where
  "send_command_wait r cmd_id f =
     (case futures r f of
        Result v \<Rightarrow> (Inr v, r)
      | Raised e \<Rightarrow> (Inl e, r)
      | Cancelled \<Rightarrow> (Inl CancelledError, r)
      | Pending \<Rightarrow>
          (Inl (TimeoutError ''Browser command timed out''),
           r\<lparr>futures := (futures r)(f := Cancelled),
             pending_commands :=
               (if pending_commands r cmd_id \<noteq> None
                then (pending_commands r)(cmd_id := None)
                else pending_commands r)\<rparr>))"

text \<open>
  What happens while a command waits: a connection is accepted, a frame arrives, a
  websocket's transport goes down, a connection's handler ends, or the task that awaits the
  command is cancelled (which changes nothing at the relay itself).
\<close>

datatype relay_event =
    Connected nat string
  | Received "json option"
  | Dropped nat
  | Disconnected nat
  | TaskCancelled

fun relay_step :: "relay \<Rightarrow> relay_event \<Rightarrow> relay" where
  "relay_step r (Connected ws path) =
     connection_opened (r\<lparr>ws_open := (ws_open r)(ws := True)\<rparr>) ws path"
| "relay_step r (Received message) = handle_message r message"
| "relay_step r (Dropped ws) = r\<lparr>ws_open := (ws_open r)(ws := False)\<rparr>"
| "relay_step r (Disconnected ws) =
     connection_closed (r\<lparr>ws_open := (ws_open r)(ws := False)\<rparr>) ws"
| "relay_step r TaskCancelled = r"

text \<open>
  The \<open>await\<close> of \<open>send_command\<close> over what happens meanwhile. When the task is cancelled
  while the future is pending, \<open>wait_for\<close> cancels the future and \<open>CancelledError\<close> is raised
  in \<open>send_command\<close>, whose handler of \<open>asyncio.TimeoutError\<close> does not catch it: the entry
  stays. A cancellation that finds the future done finds the wait over. When nothing more
  happens, the wait ends as \<open>send_command_wait\<close> says.
\<close>

fun await_future :: "relay \<Rightarrow> relay_event list \<Rightarrow> int \<Rightarrow> nat \<Rightarrow> (exn + json) \<times> relay" where
  "await_future r [] cmd_id f = send_command_wait r cmd_id f"
| "await_future r (TaskCancelled # evs) cmd_id f =
     (if futures r f = Pending
      then (Inl CancelledError, r\<lparr>futures := (futures r)(f := Cancelled)\<rparr>)
      else send_command_wait r cmd_id f)"
| "await_future r (ev # evs) cmd_id f = await_future (relay_step r ev) evs cmd_id f"

text \<open>
  A whole call of \<open>send_command\<close>: \<open>evs\<close> is what happens between the send and the end of the
  wait.
\<close>

definition send_command ::
  "relay \<Rightarrow> relay_event list \<Rightarrow> string \<Rightarrow> json \<Rightarrow> (exn + json) \<times> relay" where
  "send_command r evs method params =
     (case send_command_begin r method params of
        (Inl e, r1) \<Rightarrow> (Inl e, r1)
      | (Inr (cmd_id, f), r1) \<Rightarrow> await_future r1 evs cmd_id f)"

subsection \<open>What is sent, and the state of a command in flight\<close>


text \<open>
  A future is sound when it is pending, or done with a result or with an exception that
  \<open>except Exception\<close> catches. Every reference of the table points to an allocated
  future. For the command \<open>k\<close> with future \<open>f\<close>: either its entry is in the table and \<open>f\<close>
  is pending, or the entry is gone and \<open>f\<close> is done, and no other entry refers to \<open>f\<close>.
\<close>

definition sound_future :: "future \<Rightarrow> bool" where
  "sound_future fut =
     (case fut of Raised e \<Rightarrow> is_Exception e | Cancelled \<Rightarrow> False | _ \<Rightarrow> True)"

definition refs_allocated :: "relay \<Rightarrow> bool" where
  "refs_allocated r = (\<forall>k f. pending_commands r k = Some f \<longrightarrow> f < next_future r)"

definition in_flight :: "relay \<Rightarrow> int \<Rightarrow> nat \<Rightarrow> bool" where
  "in_flight r k f =
     ((pending_commands r k = Some f \<and> futures r f = Pending
       \<or> pending_commands r k = None \<and> futures r f \<noteq> Pending)
      \<and> (\<forall>k'. pending_commands r k' = Some f \<longrightarrow> k' = k))"

section \<open>The browser tool\<close>

text \<open>
  What \<open>execute\<close> takes from outside the source: the \<open>repr\<close> of values and the messages of
  interpreter exceptions, what happens at the relay while the action's command waits, the
  clock (\<open>int(time.time())\<close>), \<open>os.path.abspath\<close>, and whether decoding and writing the
  screenshot file raises, and with which message (the file itself is not part of the state).
\<close>

record tool_env =
  json_repr :: "json \<Rightarrow> string"
  exn_message :: "exn \<Rightarrow> string"
  relay_events :: "relay_event list"
  clock :: int
  abspath :: "string \<Rightarrow> string"
  write_png :: "string \<Rightarrow> json \<Rightarrow> string option"

text \<open>\<open>kwargs.get(k)\<close>: \<open>None\<close> stands for a missing key as for a null argument.\<close>

definition kw :: "(string \<times> json) list \<Rightarrow> string \<Rightarrow> json" where
  "kw kwargs k = (case map_of kwargs k of None \<Rightarrow> JNull | Some v \<Rightarrow> v)"

definition quote :: string where
  "quote = [CHR 0x27]"

text \<open>
  \<open>if res and "exceptionDetails" in res\<close>, and the text of \<open>res['exceptionDetails']\<close> when
  the test passes.
\<close>

definition exception_details :: "(json \<Rightarrow> string) \<Rightarrow> json \<Rightarrow> exn + string option" where
  "exception_details repr res =
     (if truthy res
      then (case py_in ''exceptionDetails'' res of
              Inl e \<Rightarrow> Inl e
            | Inr False \<Rightarrow> Inr None
            | Inr True \<Rightarrow>
                (case py_getitem res ''exceptionDetails'' of
                   Inl e \<Rightarrow> Inl e
                 | Inr d \<Rightarrow> Inr (Some (py_str repr d))))
      else Inr None)"

text \<open>\<open>res.get("result", {}).get("value", "")\<close>.\<close>

definition result_value :: "json \<Rightarrow> exn + json" where
  "result_value res =
     (case py_get res ''result'' (JObj []) of
        Inl e \<Rightarrow> Inl e
      | Inr x \<Rightarrow> py_get x ''value'' (JStr []))"

text \<open>
  One \<open>await self.relay.send_command(method, params)\<close> followed by the rest of the branch,
  \<open>k\<close>, on its result.
\<close>

definition relay_call ::
  "tool_env \<Rightarrow> relay \<Rightarrow> string \<Rightarrow> json \<Rightarrow> (json \<Rightarrow> exn + string) \<Rightarrow> (exn + string) \<times> relay" where
  "relay_call env r method params k =
     (case send_command r (relay_events env) method params of
        (Inl e, r') \<Rightarrow> (Inl e, r')
      | (Inr res, r') \<Rightarrow> (k res, r'))"

subsection \<open>The branches of \<open>execute\<close>\<close>

definition navigate :: "tool_env \<Rightarrow> relay \<Rightarrow> (string \<times> json) list \<Rightarrow> (exn + string) \<times> relay" where
  "navigate env r kwargs =
     (let url = kw kwargs ''url'' in
      if \<not> truthy url then (Inr ''Error: url is required for navigate'', r)
      else (case url of
              JStr u \<Rightarrow>
                (let url' = (if \<not> startswith u ''http'' then ''https://'' @ u else u) in
                 relay_call env r ''Page.navigate'' (JObj [(''url'', JStr url')])
                   (\<lambda>res. Inr (''Navigated to '' @ url')))
            | _ \<Rightarrow> (Inl AttributeError, r)))"

definition click :: "tool_env \<Rightarrow> relay \<Rightarrow> (string \<times> json) list \<Rightarrow> (exn + string) \<times> relay" where
  "click env r kwargs =
     (let selector = kw kwargs ''selector'' in
      if \<not> truthy selector then (Inr ''Error: selector is required for click'', r)
      else
        (let sel = py_str (json_repr env) selector;
             js = ''document.querySelector('' @ quote @ sel @ quote @ '').click()''
         in relay_call env r ''Runtime.evaluate'' (JObj [(''expression'', JStr js)])
              (\<lambda>res. case exception_details (json_repr env) res of
                        Inl e \<Rightarrow> Inl e
                      | Inr (Some d) \<Rightarrow> Inr (''Error clicking '' @ sel @ '': '' @ d)
                      | Inr None \<Rightarrow> Inr (''Clicked '' @ sel))))"

definition type_script :: "string \<Rightarrow> string \<Rightarrow> string" where
  "type_script sel txt =
     ''\<newline>                    var el = document.querySelector('' @ quote @ sel @ quote @ '');''
     @ ''\<newline>                    if (el) {''
     @ ''\<newline>                        el.value = '' @ quote @ txt @ quote @ '';''
     @ ''\<newline>                        el.dispatchEvent(new Event('input', { bubbles: true }));''
     @ ''\<newline>                        el.dispatchEvent(new Event('change', { bubbles: true }));''
     @ ''\<newline>                    } else {''
     @ ''\<newline>                        throw new Error('Element not found');''
     @ ''\<newline>                    }''
     @ ''\<newline>                ''"

definition type_text :: "tool_env \<Rightarrow> relay \<Rightarrow> (string \<times> json) list \<Rightarrow> (exn + string) \<times> relay" where
  "type_text env r kwargs =
     (let selector = kw kwargs ''selector'';
          text = kw kwargs ''text''
      in if \<not> truthy selector \<or> text = JNull
         then (Inr ''Error: selector and text are required for type'', r)
         else
           (let sel = py_str (json_repr env) selector;
                txt = py_str (json_repr env) text
            in relay_call env r ''Runtime.evaluate''
                 (JObj [(''expression'', JStr (type_script sel txt))])
                 (\<lambda>res. case exception_details (json_repr env) res of
                           Inl e \<Rightarrow> Inl e
                         | Inr (Some d) \<Rightarrow> Inr (''Error typing in '' @ sel @ '': '' @ d)
                         | Inr None \<Rightarrow>
                             Inr (''Typed '' @ quote @ txt @ quote @ '' into '' @ sel))))"

text \<open>The expression a read evaluates; the selector defaults to \<open>body\<close> when the key is missing.\<close>

definition read_selector :: "(string \<times> json) list \<Rightarrow> json" where
  "read_selector kwargs = (case map_of kwargs ''selector'' of None \<Rightarrow> JStr ''body'' | Some v \<Rightarrow> v)"

definition read_expression :: "tool_env \<Rightarrow> (string \<times> json) list \<Rightarrow> string" where
  "read_expression env kwargs =
     (if read_selector kwargs = JStr ''body'' then ''document.body.innerText''
      else ''document.querySelector('' @ quote
             @ py_str (json_repr env) (read_selector kwargs) @ quote @ '').innerText'')"

definition read :: "tool_env \<Rightarrow> relay \<Rightarrow> (string \<times> json) list \<Rightarrow> (exn + string) \<times> relay" where
  "read env r kwargs =
     relay_call env r ''Runtime.evaluate''
       (JObj [(''expression'', JStr (read_expression env kwargs)),
              (''returnByValue'', JBool True)])
       (\<lambda>res. case exception_details (json_repr env) res of
                 Inl e \<Rightarrow> Inl e
               | Inr (Some d) \<Rightarrow>
                   Inr (''Error reading '' @ py_str (json_repr env) (read_selector kwargs)
                          @ '': '' @ d)
               | Inr None \<Rightarrow>
                   (case result_value res of
                      Inl e \<Rightarrow> Inl e
                    | Inr text \<Rightarrow> Inr (take 2000 (py_str (json_repr env) text))))"

definition screenshot :: "tool_env \<Rightarrow> relay \<Rightarrow> (exn + string) \<times> relay" where
  "screenshot env r =
     relay_call env r ''Page.captureScreenshot'' (JObj [(''format'', JStr ''png'')])
       (\<lambda>res. case py_get res ''data'' JNull of
                 Inl e \<Rightarrow> Inl e
               | Inr data \<Rightarrow>
                   if truthy data
                   then (let filename = ''screenshot_'' @ str_int (clock env) @ ''.png'' in
                         case write_png env filename data of
                           Some m \<Rightarrow> Inl (OtherError m)
                         | None \<Rightarrow> Inr (''Screenshot saved to '' @ abspath env filename))
                   else Inr ''Failed to capture screenshot'')"

definition evaluate :: "tool_env \<Rightarrow> relay \<Rightarrow> (string \<times> json) list \<Rightarrow> (exn + string) \<times> relay" where
  "evaluate env r kwargs =
     (let script = kw kwargs ''script'' in
      if \<not> truthy script then (Inr ''Error: script is required for evaluate'', r)
      else relay_call env r ''Runtime.evaluate''
             (JObj [(''expression'', script), (''returnByValue'', JBool True)])
             (\<lambda>res. case exception_details (json_repr env) res of
                       Inl e \<Rightarrow> Inl e
                     | Inr (Some d) \<Rightarrow> Inr (''Error evaluating script: '' @ d)
                     | Inr None \<Rightarrow>
                         (case result_value res of
                            Inl e \<Rightarrow> Inl e
                          | Inr v \<Rightarrow> Inr (py_str (json_repr env) v))))"

subsection \<open>\<open>execute\<close>\<close>

text \<open>The body of the \<open>try\<close>: \<open>Inl e\<close> when \<open>e\<close> is raised inside it, \<open>Inr s\<close> when it returns \<open>s\<close>.\<close>

definition execute_body ::
  "tool_env \<Rightarrow> relay \<Rightarrow> string \<Rightarrow> (string \<times> json) list \<Rightarrow> (exn + string) \<times> relay" where
  "execute_body env r action kwargs =
     (if action = ''navigate'' then navigate env r kwargs
      else if action = ''click'' then click env r kwargs
      else if action = ''type'' then type_text env r kwargs
      else if action = ''read'' then read env r kwargs
      else if action = ''screenshot'' then screenshot env r
      else if action = ''evaluate'' then evaluate env r kwargs
      else (Inr (''Unknown action: '' @ action), r))"

text \<open>
  \<open>execute\<close>: the \<open>except Exception\<close> turns what the body raised into a text, unless it is no
  \<open>Exception\<close>, which leaves \<open>execute\<close> (\<open>Inl\<close>).
\<close>

definition execute ::
  "tool_env \<Rightarrow> relay \<Rightarrow> string \<Rightarrow> (string \<times> json) list \<Rightarrow> (exn + string) \<times> relay" where
  "execute env r action kwargs =
     (case execute_body env r action kwargs of
        (Inl e, r') \<Rightarrow>
          (if is_Exception e
           then (Inr (''Error executing '' @ action @ '': ''
                        @ str_exn (json_repr env) (exn_message env) e), r')
           else (Inl e, r'))
      | (Inr s, r') \<Rightarrow> (Inr s, r'))"

text \<open>What \<open>execute\<close> gave: a text at all, and a text that starts with \<open>Error\<close>.\<close>

definition returns_text :: "exn + string \<Rightarrow> bool" where
  "returns_text res = (case res of Inl e \<Rightarrow> False | Inr s \<Rightarrow> True)"

definition error_text :: "exn + string \<Rightarrow> bool" where
  "error_text res = (case res of Inl e \<Rightarrow> False | Inr s \<Rightarrow> startswith s ''Error'')"

section \<open>Concrete inputs\<close>

text \<open>
  A context builder that yields the new user message alone, tools that answer \<open>ok\<close>, and
  three providers: one that asks for a tool on every call, one that answers \<open>hello\<close>, one that
  answers with no text. The world counts the calls to provider and tools.
\<close>

definition user_entry :: "string \<Rightarrow> chat_message" where
  "user_entry c = \<lparr>msg_role = ''user'', msg_content = c, msg_tool_calls = None,
                   msg_tool_call_id = None\<rparr>"

definition base_env :: "(nat \<Rightarrow> chat_message list \<Rightarrow> llm_result \<times> nat) \<Rightarrow> int \<Rightarrow> nat agent_env" where
  "base_env provider n =
     \<lparr>chat = provider,
      tools_execute = (\<lambda>w name args. (Inr ''ok'', Suc w)),
      set_context = (\<lambda>w tool c i. w),
      json_dumps = (\<lambda>j. ''{}''),
      build_messages = (\<lambda>history c m. [user_entry c]),
      value_repr = (\<lambda>j. []),
      exn_text = (\<lambda>e. []),
      max_iterations = n\<rparr>"

definition tool_calling_env :: "int \<Rightarrow> nat agent_env" where
  "tool_calling_env n =
     base_env (\<lambda>w msgs. (ChatReply None [\<lparr>tc_id = ''c1'', tc_name = ''exec'',
                                            tc_arguments = JObj []\<rparr>], Suc w)) n"

definition greeting_env :: "nat agent_env" where
  "greeting_env = base_env (\<lambda>w msgs. (ChatReply (Some ''hello'') [], Suc w)) 10"

definition silent_env :: "nat agent_env" where
  "silent_env = base_env (\<lambda>w msgs. (ChatReply None [], Suc w)) 10"

definition empty_state :: "nat agent_state" where
  "empty_state = \<lparr>sessions = Map.empty, outbound = [], world = 0, llm_log = []\<rparr>"

definition cli_message :: inbound_message where
  "cli_message = \<lparr>channel = ''cli'', sender_id = ''user'', chat_id = ''1'', content = ''hi'',
                   media = [], metadata = [], session_key = ''cli:1''\<rparr>"

definition announcement :: "string \<Rightarrow> inbound_message" where
  "announcement c = \<lparr>channel = ''system'', sender_id = ''subagent'', chat_id = ''cli:1'',
                     content = c, media = [], metadata = [], session_key = ''system:cli:1''\<rparr>"

text \<open>
  A relay whose extension has connected as websocket 1; the same with one command in flight;
  the same after the transport of websocket 1 went down, its handler not yet finished. A tool
  environment, a response frame, and a page text of 5000 characters.
\<close>

definition connected_relay :: relay where
  "connected_relay =
     relay_step (start (new_relay DEFAULT_RELAY_PORT) True) (Connected 1 ''/extension'')"

definition in_flight_relay :: relay where
  "in_flight_relay =
     snd (send_command_begin connected_relay ''Runtime.evaluate''
            (JObj [(''expression'', JStr ''1 + 1'')]))"

definition dropped_relay :: relay where
  "dropped_relay = relay_step connected_relay (Dropped 1)"

definition quiet_env :: "relay_event list \<Rightarrow> tool_env" where
  "quiet_env evs = \<lparr>json_repr = (\<lambda>j. ''?''), exn_message = (\<lambda>e. ''?''), relay_events = evs,
     clock = 1700000000, abspath = (\<lambda>f. ''/work/'' @ f), write_png = (\<lambda>f d. None)\<rparr>"

definition reply :: "int \<Rightarrow> json \<Rightarrow> relay_event" where
  "reply i v = Received (Some (JObj [(''id'', JInt i), (''result'', v)]))"

definition page_text :: string where
  "page_text = replicate 5000 CHR ''a''"

section \<open>Properties of the agent loop\<close>

lemma takeWhile_sep: "sep \<notin> set x \<Longrightarrow> takeWhile (\<lambda>c. c \<noteq> sep) (x @ sep # r) = x"
  by (induction x) auto

lemma dropWhile_sep: "sep \<notin> set x \<Longrightarrow> dropWhile (\<lambda>c. c \<noteq> sep) (x @ sep # r) = sep # r"
  by (induction x) auto

lemma py_split_three:
  assumes "sep \<notin> set a" "sep \<notin> set b"
  shows "py_split sep 2 (a @ sep # b @ sep # c) = [a, b, c]"
  using assms by (simp add: numeral_2_eq_2 takeWhile_sep dropWhile_sep)

lemma count_list_zero: "x \<notin> set s \<Longrightarrow> count_list s x = 0"
  by (induction s) auto

lemma count_list_after:
  "sep \<in> set s \<Longrightarrow> count_list s sep = Suc (count_list (tl (dropWhile (\<lambda>c. c \<noteq> sep) s)) sep)"
  by (induction s) auto

lemma length_py_split: "length (py_split sep n s) = Suc (min n (count_list s sep))"
proof (induction n arbitrary: s)
  case 0
  then show ?case by simp
next
  case (Suc n)
  show ?case
  proof (cases "sep \<in> set s")
    case True
    then show ?thesis using Suc count_list_after [OF True] by simp
  next
    case False
    then show ?thesis by (simp add: count_list_zero)
  qed
qed

lemma loop_body_log: "loop_body env s = (f, s') \<Longrightarrow> loop_log s' = loop_log s @ [messages s]"
  by (auto simp: loop_body_def Let_def split: prod.splits llm_result.splits if_splits)

lemma loop_body_break: "loop_body env s = (Break, s') \<Longrightarrow> final_content s' \<noteq> None"
  by (auto simp: loop_body_def Let_def split: prod.splits llm_result.splits if_splits)

lemma loop_body_continue:
  "loop_body env s = (Continue, s') \<Longrightarrow>
     final_content s' = final_content s \<and> (\<exists>tcs. tool_calls s' = Some tcs \<and> tcs \<noteq> [])"
  by (auto simp: loop_body_def Let_def split: prod.splits llm_result.splits if_splits)

lemma agent_loop_log_le:
  "length (loop_log (agent_loop env s))
     \<le> length (loop_log s) + nat (max_iterations env - iteration s)"
proof (induction env s rule: agent_loop.induct)
  case (1 env s)
  show ?case
  proof (cases "iteration s < max_iterations env")
    case False
    then show ?thesis by (simp add: agent_loop.simps)
  next
    case True
    obtain f s' where b: "loop_body env s = (f, s')" by (cases "loop_body env s")
    note it = loop_body_iteration [OF b] and lg = loop_body_log [OF b]
    show ?thesis
    proof (cases f)
      case Break
      then show ?thesis using True b lg by (simp add: agent_loop.simps [of env s])
    next
      case Continue
      have "length (loop_log (agent_loop env s'))
              \<le> length (loop_log s') + nat (max_iterations env - iteration s')"
        using "1.IH" [OF True] b Continue by simp
      then show ?thesis using True b Continue lg it
        by (simp add: agent_loop.simps [of env s])
    qed
  qed
qed

lemma agent_loop_exhausted:
  "final_content (agent_loop env s) = None \<Longrightarrow>
     length (loop_log (agent_loop env s))
       = length (loop_log s) + nat (max_iterations env - iteration s)
     \<and> (iteration s < max_iterations env \<longrightarrow>
          (\<exists>tcs. tool_calls (agent_loop env s) = Some tcs \<and> tcs \<noteq> []))"
proof (induction env s rule: agent_loop.induct)
  case (1 env s)
  show ?case
  proof (cases "iteration s < max_iterations env")
    case False
    then show ?thesis by (simp add: agent_loop.simps)
  next
    case True
    obtain f s' where b: "loop_body env s = (f, s')" by (cases "loop_body env s")
    note it = loop_body_iteration [OF b] and lg = loop_body_log [OF b]
    show ?thesis
    proof (cases f)
      case Break
      then have "agent_loop env s = s'" using True b by (simp add: agent_loop.simps [of env s])
      moreover have "final_content s' \<noteq> None"
        using loop_body_break [of env s s'] b Break by simp
      ultimately show ?thesis using "1.prems" by simp
    next
      case Continue
      have eq: "agent_loop env s = agent_loop env s'"
        using True b Continue by (simp add: agent_loop.simps [of env s])
      have ih: "length (loop_log (agent_loop env s'))
                  = length (loop_log s') + nat (max_iterations env - iteration s')
                \<and> (iteration s' < max_iterations env \<longrightarrow>
                     (\<exists>tcs. tool_calls (agent_loop env s') = Some tcs \<and> tcs \<noteq> []))"
        using "1.IH" [OF True] b Continue "1.prems" eq by simp
      have tc: "\<exists>tcs. tool_calls (agent_loop env s') = Some tcs \<and> tcs \<noteq> []"
      proof (cases "iteration s' < max_iterations env")
        case True
        then show ?thesis using ih by simp
      next
        case False
        then have "agent_loop env s' = s'" by (simp add: agent_loop.simps [of env s'])
        then show ?thesis using loop_body_continue b Continue by auto
      qed
      show ?thesis using ih tc eq lg it True by simp
    qed
  qed
qed


lemma process_message_system:
  "channel msg = ''system'' \<Longrightarrow> process_message env st msg = (Inr (process_system_message msg), st)"
  by (simp add: process_message_def)

text \<open>
  C3. A message on the system channel whose content is \<open>a:b:c\<close>, with no colon in \<open>a\<close> and
  \<open>b\<close> (three fields after splitting on the first two colons; \<open>c\<close> may hold colons): the
  pass of \<open>run\<close> publishes exactly one outbound message, to channel \<open>a\<close> and chat \<open>b\<close>,
  whose content ends with \<open>c\<close> verbatim, and changes nothing else. With fewer than two colons
  (fewer than three fields) nothing is published and the state is unchanged.
\<close>

theorem system_message_routing:
  assumes "channel msg = ''system''"
  shows "(content msg = a @ '':'' @ b @ '':'' @ c \<and> CHR '':'' \<notin> set a \<and> CHR '':'' \<notin> set b
            \<longrightarrow> run_iteration env st msg =
                  st\<lparr>outbound := outbound st @
                       [\<lparr>out_channel = a, out_chat_id = b,
                         out_content = Some (''Subagent task completed:\<newline>'' @ c),
                         out_media = []\<rparr>]\<rparr>)
       \<and> (count_list (content msg) CHR '':'' < 2 \<longrightarrow> run_iteration env st msg = st)"
proof (intro conjI impI)
  assume h: "content msg = a @ '':'' @ b @ '':'' @ c \<and> CHR '':'' \<notin> set a \<and> CHR '':'' \<notin> set b"
  then have "py_split CHR '':'' 2 (content msg) = [a, b, c]"
    using py_split_three [of "CHR '':''" a b c] by simp
  then have "process_system_message msg =
      Some \<lparr>out_channel = a, out_chat_id = b,
            out_content = Some (''Subagent task completed:\<newline>'' @ c), out_media = []\<rparr>"
    by (simp add: process_system_message_def)
  then show "run_iteration env st msg =
                  st\<lparr>outbound := outbound st @
                       [\<lparr>out_channel = a, out_chat_id = b,
                         out_content = Some (''Subagent task completed:\<newline>'' @ c),
                         out_media = []\<rparr>]\<rparr>"
    using assms by (simp add: run_iteration_def process_message_system)
next
  assume "count_list (content msg) CHR '':'' < 2"
  then have "length (py_split CHR '':'' 2 (content msg)) < 3"
    by (simp add: length_py_split)
  then have "process_system_message msg = None"
    by (simp add: process_system_message_def)
  then show "run_iteration env st msg = st"
    using assms by (simp add: run_iteration_def process_message_system)
qed

theorem system_message_routing_witness:
  "run_iteration greeting_env empty_state (announcement ''chanA:42:done: 3:1'') =
     empty_state\<lparr>outbound := [\<lparr>out_channel = ''chanA'', out_chat_id = ''42'',
                        out_content = Some ''Subagent task completed:\<newline>done: 3:1'',
                        out_media = []\<rparr>]\<rparr>
   \<and> run_iteration greeting_env empty_state (announcement ''chanA:42'') = empty_state"
  using system_message_routing [of "announcement ''chanA:42:done: 3:1''" "''chanA''" "''42''" "''done: 3:1''" greeting_env empty_state]
    system_message_routing [of "announcement ''chanA:42''" "''chanA''" "''42''" "[]" greeting_env empty_state]
  by (simp add: announcement_def empty_state_def)

lemma process_message_user:
  assumes "channel msg \<noteq> ''system''"
  shows "process_message env st msg =
     (let key = session_key msg;
          ss0 = get_or_create (sessions st) key;
          s = agent_loop env (initial_loop_state env st msg);
          ss1 = add_message ss0 key ''user'' (content msg) (Some (media msg));
          has_final = (case final_content s of None \<Rightarrow> False | Some t \<Rightarrow> t \<noteq> []);
          ss2 = (if has_final
                 then add_message ss1 key ''assistant''
                        (case final_content s of None \<Rightarrow> [] | Some t \<Rightarrow> t) None
                 else ss1);
          st' = st\<lparr>sessions := ss2, world := loop_world s, llm_log := loop_log s\<rparr>
      in if has_final then (Inr (Some (emit msg s (final_content s))), st')
         else (case tool_calls s of
                 None \<Rightarrow> (Inl (UnboundLocalError ''tool_calls''), st')
               | Some tcs \<Rightarrow>
                   if tcs = [] then (Inr (Some (emit msg s (Some fallback_text))), st')
                   else (Inr (Some (emit msg s (final_content s))), st')))"
  using assms by (simp add: process_message_def)

lemma add_user_turn:
  "add_message (get_or_create ss key) key r c m =
     ss(key \<mapsto> get_history ss key @ [\<lparr>role = r, turn_content = c, turn_media = m\<rparr>])"
  by (auto simp: add_message_def get_or_create_def get_history_def split: option.splits)

lemma add_second_turn:
  "add_message (ss(key \<mapsto> ts)) key r c m =
     ss(key \<mapsto> ts @ [\<lparr>role = r, turn_content = c, turn_media = m\<rparr>])"
  by (simp add: add_message_def get_history_def)

lemma agent_loop_first_reply_final:
  assumes "0 < max_iterations env" and "iteration s = 0"
    and "chat env (loop_world s) (messages s) = (ChatReply c [], w')"
  shows "agent_loop env s =
     s\<lparr>iteration := 1, tool_calls := Some [],
       messages := messages s @ [\<lparr>msg_role = ''assistant'',
                                  msg_content = (case c of None \<Rightarrow> [] | Some t \<Rightarrow> t),
                                  msg_tool_calls = None, msg_tool_call_id = None\<rparr>],
       loop_world := w', loop_log := loop_log s @ [messages s],
       final_content := Some (case c of None \<Rightarrow> [] | Some t \<Rightarrow> t)\<rparr>"
  using assms by (simp add: agent_loop.simps [of env s] loop_body_def Let_def)

text \<open>
  C2. A non-system message whose first model reply is a non-empty text \<open>t\<close> without tool calls
  (a first reply exists: the turn budget is positive): exactly one outbound message is
  published, to the sender's channel and chat with content \<open>t\<close>; the session of the message's
  key gains the user turn with the original content followed by the assistant turn \<open>t\<close>, and
  no other session changes. The provider was called once.
\<close>

theorem text_reply_single_exchange:
  assumes "channel msg \<noteq> ''system''" and "0 < max_iterations env"
    and "s0 = initial_loop_state env st msg"
    and "chat env (loop_world s0) (messages s0) = (ChatReply (Some t) [], w')"
    and "t \<noteq> []"
  shows "run_iteration env st msg =
     st\<lparr>sessions := (sessions st)(session_key msg \<mapsto>
                        get_history (sessions st) (session_key msg) @
                          [\<lparr>role = ''user'', turn_content = content msg,
                            turn_media = Some (media msg)\<rparr>,
                           \<lparr>role = ''assistant'', turn_content = t, turn_media = None\<rparr>]),
        outbound := outbound st @
                      [\<lparr>out_channel = channel msg, out_chat_id = chat_id msg,
                        out_content = Some t, out_media = []\<rparr>],
        world := w',
        llm_log := llm_log st @ [messages s0]\<rparr>"
proof -
  have it: "iteration s0 = 0" using assms(3) by (simp add: initial_loop_state_def)
  have loop: "agent_loop env (initial_loop_state env st msg) =
     s0\<lparr>iteration := 1, tool_calls := Some [],
        messages := messages s0 @ [\<lparr>msg_role = ''assistant'', msg_content = t,
                                   msg_tool_calls = None, msg_tool_call_id = None\<rparr>],
        loop_world := w', loop_log := loop_log s0 @ [messages s0],
        final_content := Some t\<rparr>"
    using agent_loop_first_reply_final [OF assms(2) it assms(4)] assms(3) by simp
  have fields: "media_from_tool_results s0 = []" "loop_log s0 = llm_log st"
    using assms(3) by (simp_all add: initial_loop_state_def)
  show ?thesis
    using assms(5) fields
    by (simp add: run_iteration_def process_message_user [OF assms(1)] loop Let_def
                  add_user_turn add_second_turn emit_def)
qed

theorem text_reply_single_exchange_witness:
  "run_iteration greeting_env empty_state cli_message =
     empty_state\<lparr>sessions := [''cli:1'' \<mapsto>
                      [\<lparr>role = ''user'', turn_content = ''hi'', turn_media = Some []\<rparr>,
                       \<lparr>role = ''assistant'', turn_content = ''hello'', turn_media = None\<rparr>]],
                  outbound := [\<lparr>out_channel = ''cli'', out_chat_id = ''1'',
                                out_content = Some ''hello'', out_media = []\<rparr>],
                  world := 1,
                  llm_log := [[user_entry ''hi'']]\<rparr>"
  using text_reply_single_exchange [of cli_message greeting_env
          "initial_loop_state greeting_env empty_state cli_message" empty_state "''hello''" 1]
  by (simp add: greeting_env_def base_env_def empty_state_def cli_message_def
        initial_loop_state_def get_or_create_def get_history_def)

text \<open>
  C10. A non-system message whose first model reply has no text (\<open>None\<close> or the empty string)
  and no tool calls: the session of the message's key gains the user turn and nothing else,
  and the one outbound message carries the fixed fallback text, which is not stored in the
  session.
\<close>

theorem empty_reply_fallback:
  assumes "channel msg \<noteq> ''system''" and "0 < max_iterations env"
    and "s0 = initial_loop_state env st msg"
    and "chat env (loop_world s0) (messages s0) = (ChatReply c [], w')"
    and "c = None \<or> c = Some []"
  shows "run_iteration env st msg =
     st\<lparr>sessions := (sessions st)(session_key msg \<mapsto>
                        get_history (sessions st) (session_key msg) @
                          [\<lparr>role = ''user'', turn_content = content msg,
                            turn_media = Some (media msg)\<rparr>]),
        outbound := outbound st @
                      [\<lparr>out_channel = channel msg, out_chat_id = chat_id msg,
                        out_content = Some ''I'm not sure how to respond to that.'',
                        out_media = []\<rparr>],
        world := w',
        llm_log := llm_log st @ [messages s0]\<rparr>"
proof -
  have it: "iteration s0 = 0" using assms(3) by (simp add: initial_loop_state_def)
  have empty: "(case c of None \<Rightarrow> [] | Some t \<Rightarrow> t) = []" using assms(5) by auto
  have loop: "agent_loop env (initial_loop_state env st msg) =
     s0\<lparr>iteration := 1, tool_calls := Some [],
        messages := messages s0 @ [\<lparr>msg_role = ''assistant'', msg_content = [],
                                   msg_tool_calls = None, msg_tool_call_id = None\<rparr>],
        loop_world := w', loop_log := loop_log s0 @ [messages s0],
        final_content := Some []\<rparr>"
    using agent_loop_first_reply_final [OF assms(2) it assms(4)] assms(3) empty by simp
  have fields: "media_from_tool_results s0 = []" "loop_log s0 = llm_log st"
    using assms(3) by (simp_all add: initial_loop_state_def)
  show ?thesis
    using fields
    by (simp add: run_iteration_def process_message_user [OF assms(1)] loop Let_def
                  add_user_turn emit_def fallback_text_def)
qed

theorem empty_reply_fallback_witness:
  "run_iteration silent_env empty_state cli_message =
     empty_state\<lparr>sessions := [''cli:1'' \<mapsto>
                      [\<lparr>role = ''user'', turn_content = ''hi'', turn_media = Some []\<rparr>]],
                  outbound := [\<lparr>out_channel = ''cli'', out_chat_id = ''1'',
                                out_content = Some ''I'm not sure how to respond to that.'',
                                out_media = []\<rparr>],
                  world := 1,
                  llm_log := [[user_entry ''hi'']]\<rparr>"
  using empty_reply_fallback [of cli_message silent_env
          "initial_loop_state silent_env empty_state cli_message" empty_state None 1]
  by (simp add: silent_env_def base_env_def empty_state_def cli_message_def
        initial_loop_state_def get_or_create_def get_history_def)

text \<open>
  C1, as the code has it. Processing a non-system message calls the model at most \<open>N\<close> times,
  \<open>N\<close> the configured maximum (a negative one counts as 0). When the loop ends with no final
  answer recorded (every reply asked for tools, up to the last turn of the budget), exactly
  \<open>N\<close> calls were made; and for \<open>N > 0\<close> the outbound message is emitted with no text at all:
  its content is \<open>None\<close>, since the fallback is substituted only when the last reply carried
  no tool call.
\<close>

theorem turn_budget:
  assumes "channel msg \<noteq> ''system''"
  shows "length (llm_log (snd (process_message env st msg)))
           \<le> length (llm_log st) + nat (max_iterations env)
       \<and> (final_content (agent_loop env (initial_loop_state env st msg)) = None \<longrightarrow>
            length (llm_log (snd (process_message env st msg)))
              = length (llm_log st) + nat (max_iterations env)
            \<and> (0 < max_iterations env \<longrightarrow>
                 fst (process_message env st msg) =
                   Inr (Some (emit msg (agent_loop env (initial_loop_state env st msg)) None))))"
proof -
  define s where "s = agent_loop env (initial_loop_state env st msg)"
  have init: "iteration (initial_loop_state env st msg) = 0"
             "loop_log (initial_loop_state env st msg) = llm_log st"
    by (simp_all add: initial_loop_state_def)
  have log: "llm_log (snd (process_message env st msg)) = loop_log s"
    by (simp add: process_message_user [OF assms] Let_def s_def split: option.splits)
  have le: "length (loop_log s) \<le> length (llm_log st) + nat (max_iterations env)"
    using agent_loop_log_le [of env "initial_loop_state env st msg"] init by (simp add: s_def)
  have ex: "length (loop_log s) = length (llm_log st) + nat (max_iterations env)
            \<and> (0 < max_iterations env \<longrightarrow>
                 fst (process_message env st msg) = Inr (Some (emit msg s None)))"
    if none: "final_content s = None"
  proof -
    from agent_loop_exhausted [of env "initial_loop_state env st msg"] none init
    have a: "length (loop_log s) = length (llm_log st) + nat (max_iterations env)"
      and b: "0 < max_iterations env \<longrightarrow> (\<exists>tcs. tool_calls s = Some tcs \<and> tcs \<noteq> [])"
      by (simp_all add: s_def)
    have "fst (process_message env st msg) = Inr (Some (emit msg s None))"
      if "0 < max_iterations env"
    proof -
      from b that obtain tcs where "tool_calls s = Some tcs" "tcs \<noteq> []" by blast
      then show ?thesis using none
        by (simp add: process_message_user [OF assms] Let_def s_def [symmetric])
    qed
    then show ?thesis using a by simp
  qed
  show ?thesis using log le ex unfolding s_def by simp
qed


theorem turn_budget_witness:
  "length (llm_log (snd (process_message (tool_calling_env 3) empty_state cli_message))) \<le> 3
   \<and> final_content (agent_loop (tool_calling_env 3)
         (initial_loop_state (tool_calling_env 3) empty_state cli_message)) = None
   \<and> length (llm_log (snd (process_message (tool_calling_env 3) empty_state cli_message))) = 3
   \<and> out_content (emit cli_message (agent_loop (tool_calling_env 3)
         (initial_loop_state (tool_calling_env 3) empty_state cli_message)) None) = None
   \<and> fst (process_message (tool_calling_env 3) empty_state cli_message) =
        Inr (Some (emit cli_message (agent_loop (tool_calling_env 3)
           (initial_loop_state (tool_calling_env 3) empty_state cli_message)) None))"
proof -
  have none: "final_content (agent_loop (tool_calling_env 3)
         (initial_loop_state (tool_calling_env 3) empty_state cli_message)) = None"
    by (simp add: tool_calling_env_def base_env_def empty_state_def cli_message_def
          initial_loop_state_def agent_loop.simps loop_body_def Let_def
          get_or_create_def get_history_def)
  have sys: "channel cli_message \<noteq> ''system''"
    by (simp add: cli_message_def)
  have n: "max_iterations (tool_calling_env 3) = 3" "llm_log empty_state = []"
    by (simp_all add: tool_calling_env_def base_env_def empty_state_def)
  show ?thesis
    using turn_budget [OF sys, of "tool_calling_env 3" empty_state] none n
    by (simp add: emit_def)
qed

text \<open>
  C1 as the specification states it does not hold: with a budget of one turn and a reply that
  asks for a tool, one call is made and the emitted message has no text, neither a recorded
  answer nor the fallback.
\<close>

theorem turn_budget_counterexample:
  "fst (process_message (tool_calling_env 1) empty_state cli_message) =
     Inr (Some \<lparr>out_channel = ''cli'', out_chat_id = ''1'', out_content = None,
                out_media = []\<rparr>)
   \<and> length (llm_log (snd (process_message (tool_calling_env 1) empty_state cli_message))) = 1"
  by (simp add: process_message_def tool_calling_env_def base_env_def empty_state_def
        cli_message_def initial_loop_state_def agent_loop.simps loop_body_def Let_def
        get_or_create_def get_history_def add_message_def emit_def)

section \<open>Properties of the relay\<close>

lemma in_flight_fields:
  "pending_commands in_flight_relay = [1 \<mapsto> 0]"
  "futures in_flight_relay 0 = Pending"
  "extension_ws in_flight_relay = Some 1"
  "ws_open in_flight_relay 1"
  "command_id in_flight_relay = 1"
  by (simp_all add: in_flight_relay_def connected_relay_def send_command_begin_def Let_def
        ws_send_def start_def new_relay_def connection_opened_def RELAY_PATH_def envelope_def)

text \<open>
  C5. A frame that is a dict with \<open>method\<close> \<open>ping\<close> and without an id accompanied by a result
  or an error leaves the pending-command table and every future as they were; and when the
  relay holds a peer whose websocket accepts it, handling the frame sends exactly one frame,
  \<open>{"method": "pong"}\<close>, to that peer and changes nothing else.
\<close>

theorem ping_answered_with_pong:
  assumes "map_of kv ''method'' = Some (JStr ''ping'')"
    and "\<not> (map_of kv ''id'' \<noteq> None
             \<and> (map_of kv ''result'' \<noteq> None \<or> map_of kv ''error'' \<noteq> None))"
  shows "pending_commands (handle_message r (Some (JObj kv))) = pending_commands r
       \<and> futures (handle_message r (Some (JObj kv))) = futures r
       \<and> (extension_ws r = Some ws \<and> ws_open r ws \<longrightarrow>
            handle_message r (Some (JObj kv)) =
              r\<lparr>sent := sent r @ [(ws, JObj [(''method'', JStr ''pong'')])]\<rparr>)"
  using assms
  by (cases "extension_ws r") (auto simp: handle_message_def ws_send_def)

theorem ping_answered_with_pong_witness:
  "pending_commands (handle_message in_flight_relay (Some (JObj [(''method'', JStr ''ping'')])))
     = [1 \<mapsto> 0]
   \<and> handle_message in_flight_relay (Some (JObj [(''method'', JStr ''ping'')])) =
       in_flight_relay\<lparr>sent := sent in_flight_relay @ [(1, JObj [(''method'', JStr ''pong'')])]\<rparr>"
proof -
  have m: "map_of [(''method'', JStr ''ping'')] ''method'' = Some (JStr ''ping'')"
    by simp
  have n: "\<not> (map_of [(''method'', JStr ''ping'')] ''id'' \<noteq> None
             \<and> (map_of [(''method'', JStr ''ping'')] ''result'' \<noteq> None
                  \<or> map_of [(''method'', JStr ''ping'')] ''error'' \<noteq> None))"
    by simp
  have c: "extension_ws in_flight_relay = Some 1 \<and> ws_open in_flight_relay 1"
    using in_flight_fields by blast
  from ping_answered_with_pong [OF m n, of in_flight_relay 1] c in_flight_fields(1)
  show ?thesis by metis
qed

text \<open>
  C9. When the handler of a connection ends, the relay changes nothing but its peer
  reference (cleared if it was this websocket): the pending-command table and the futures
  are as before, so no command in flight is failed; a command whose future is still pending
  ends by the timeout of its wait, which removes its entry and raises \<open>TimeoutError\<close>.
\<close>

theorem disconnect_leaves_pending:
  "pending_commands (connection_closed r ws) = pending_commands r
   \<and> futures (connection_closed r ws) = futures r
   \<and> (extension_ws r = Some ws \<longrightarrow> connection_closed r ws = r\<lparr>extension_ws := None\<rparr>)
   \<and> (pending_commands r k = Some f \<and> futures r f = Pending \<longrightarrow>
        send_command_wait (connection_closed r ws) k f =
          (Inl (TimeoutError ''Browser command timed out''),
           (connection_closed r ws)\<lparr>futures := (futures r)(f := Cancelled),
                                     pending_commands := (pending_commands r)(k := None)\<rparr>))"
  by (auto simp: connection_closed_def send_command_wait_def)

theorem disconnect_leaves_pending_witness:
  "pending_commands (connection_closed in_flight_relay 1) = [1 \<mapsto> 0]
   \<and> futures (connection_closed in_flight_relay 1) 0 = Pending
   \<and> connection_closed in_flight_relay 1 = in_flight_relay\<lparr>extension_ws := None\<rparr>
   \<and> fst (send_command_wait (connection_closed in_flight_relay 1) 1 0)
       = Inl (TimeoutError ''Browser command timed out'')
   \<and> pending_commands (snd (send_command_wait (connection_closed in_flight_relay 1) 1 0)) 1
       = None"
proof -
  note t = disconnect_leaves_pending [of in_flight_relay 1 1 0]
  have c: "pending_commands in_flight_relay 1 = Some 0 \<and> futures in_flight_relay 0 = Pending"
    by (simp add: in_flight_fields)
  have w: "send_command_wait (connection_closed in_flight_relay 1) 1 0 =
          (Inl (TimeoutError ''Browser command timed out''),
           (connection_closed in_flight_relay 1)
             \<lparr>futures := (futures in_flight_relay)(0 := Cancelled),
              pending_commands := (pending_commands in_flight_relay)(1 := None)\<rparr>)"
    using t c by blast
  have a: "pending_commands (connection_closed in_flight_relay 1) = [1 \<mapsto> 0]"
    using t in_flight_fields(1) by metis
  have b: "futures (connection_closed in_flight_relay 1) 0 = Pending"
    using t in_flight_fields(2) by metis
  have d: "connection_closed in_flight_relay 1 = in_flight_relay\<lparr>extension_ws := None\<rparr>"
    using t in_flight_fields(3) by blast
  show ?thesis using a b d w by simp
qed

text \<open>
  A command whose envelope was sent is settled when its wait ends, unless its task is
  cancelled: whatever else happens in between, its entry is out of the table and its future
  is done, by the response that carried its id or by the timeout.
\<close>

lemma pending_resolve: "pending_commands (resolve r kv k f) = (pending_commands r)(k := None)"
  by (simp add: resolve_def Let_def split: option.splits)

lemma futures_resolve_other: "g \<noteq> f \<Longrightarrow> futures (resolve r kv k f) g = futures r g"
  by (simp add: resolve_def Let_def split: option.splits)

lemma futures_resolve_same: "futures (resolve r kv k f) f \<noteq> Pending"
  by (simp add: resolve_def Let_def split: option.splits)

lemma in_flightD:
  assumes "in_flight r k f"
  shows "pending_commands r k = Some f \<and> futures r f = Pending
         \<or> pending_commands r k = None \<and> futures r f \<noteq> Pending"
    and "pending_commands r k' = Some f \<Longrightarrow> k' = k"
  using assms unfolding in_flight_def by blast+

lemma in_flightI:
  assumes "pending_commands r k = Some f \<and> futures r f = Pending
         \<or> pending_commands r k = None \<and> futures r f \<noteq> Pending"
    and "\<And>k'. pending_commands r k' = Some f \<Longrightarrow> k' = k"
  shows "in_flight r k f"
  using assms unfolding in_flight_def by blast

lemma in_flight_resolve:
  assumes "in_flight r k f" and "pending_commands r k' = Some f'"
  shows "in_flight (resolve r kv k' f') k f"
proof (rule in_flightI)
  fix k''
  assume "pending_commands (resolve r kv k' f') k'' = Some f"
  then have "pending_commands r k'' = Some f"
    by (simp add: pending_resolve split: if_splits)
  then show "k'' = k" by (rule in_flightD(2) [OF assms(1)])
next
  show "pending_commands (resolve r kv k' f') k = Some f \<and> futures (resolve r kv k' f') f = Pending
         \<or> pending_commands (resolve r kv k' f') k = None \<and> futures (resolve r kv k' f') f \<noteq> Pending"
  proof (cases "k' = k")
    case True
    with assms(2) in_flightD(1) [OF assms(1)] have "f' = f" by auto
    then show ?thesis using True
      by (simp add: pending_resolve futures_resolve_same)
  next
    case False
    have "f' \<noteq> f"
    proof
      assume "f' = f"
      with assms(2) have "k' = k" using in_flightD(2) [OF assms(1)] by blast
      with False show False by simp
    qed
    then have "futures (resolve r kv k' f') f = futures r f"
      by (simp add: futures_resolve_other)
    then show ?thesis using False in_flightD(1) [OF assms(1)]
      by (simp add: pending_resolve)
  qed
qed


lemma in_flight_frame:
  "in_flight r k f \<Longrightarrow> pending_commands r' = pending_commands r \<Longrightarrow>
     futures r' = futures r \<Longrightarrow> in_flight r' k f"
  by (simp add: in_flight_def)

lemma in_flight_ws_send:
  assumes "in_flight r k f" and "ws_send r ws p = Inr r'"
  shows "in_flight r' k f"
proof -
  from assms(2) have "r' = r\<lparr>sent := sent r @ [(ws, p)]\<rparr>"
    by (simp add: ws_send_def split: if_splits)
  then have "pending_commands r' = pending_commands r" "futures r' = futures r"
    by simp_all
  then show ?thesis by (rule in_flight_frame [OF assms(1)])
qed

lemma handle_message_body_cases:
  assumes "handle_message_body r data = Inr r'"
  shows "r' = r
         \<or> (\<exists>kv k0 f0. pending_commands r k0 = Some f0 \<and> r' = resolve r kv k0 f0)
         \<or> (\<exists>ws p. ws_send r ws p = Inr r')"
proof (cases data)
  case (JObj kv)
  with assms show ?thesis
    by (auto split: if_splits sum.splits option.splits)
qed (use assms in \<open>auto split: if_splits\<close>)

lemma in_flight_handle_message:
  assumes "in_flight r k f"
  shows "in_flight (handle_message r m) k f"
proof (cases m)
  case None
  then show ?thesis using assms by (simp add: handle_message_def)
next
  case (Some data)
  show ?thesis
  proof (cases "handle_message_body r data")
    case (Inl e)
    then show ?thesis using assms Some by (simp add: handle_message_def)
  next
    case (Inr r')
    then have eq: "handle_message r m = r'" using Some by (simp add: handle_message_def)
    from handle_message_body_cases [OF Inr] have "in_flight r' k f"
    proof (elim disjE exE conjE)
      assume "r' = r"
      then show ?thesis using assms by simp
    next
      fix kv k0 f0
      assume "pending_commands r k0 = Some f0" "r' = resolve r kv k0 f0"
      then show ?thesis using in_flight_resolve [OF assms] by simp
    next
      fix ws p
      assume "ws_send r ws p = Inr r'"
      then show ?thesis by (rule in_flight_ws_send [OF assms])
    qed
    then show ?thesis by (simp add: eq)
  qed
qed

lemma in_flight_relay_step:
  assumes "in_flight r k f"
  shows "in_flight (relay_step r ev) k f"
proof (cases ev)
  case (Connected ws path)
  have "pending_commands (relay_step r ev) = pending_commands r"
       "futures (relay_step r ev) = futures r"
    using Connected by (simp_all add: connection_opened_def)
  then show ?thesis by (rule in_flight_frame [OF assms])
next
  case (Received m)
  then show ?thesis using in_flight_handle_message [OF assms] by simp
next
  case (Dropped ws)
  have "pending_commands (relay_step r ev) = pending_commands r"
       "futures (relay_step r ev) = futures r"
    using Dropped by simp_all
  then show ?thesis by (rule in_flight_frame [OF assms])
next
  case (Disconnected ws)
  have "pending_commands (relay_step r ev) = pending_commands r"
       "futures (relay_step r ev) = futures r"
    using Disconnected by (simp_all add: connection_closed_def)
  then show ?thesis by (rule in_flight_frame [OF assms])
next
  case TaskCancelled
  then show ?thesis using assms by simp
qed

lemma in_flight_foldl: "in_flight r k f \<Longrightarrow> in_flight (foldl relay_step r evs) k f"
  by (induction evs arbitrary: r) (simp_all add: in_flight_relay_step)

lemma in_flight_begin:
  assumes "refs_allocated r" and "send_command_begin r method params = (Inr (k, f), r1)"
  shows "in_flight r1 k f"
proof -
  from assms(2) obtain ws where ws: "extension_ws r = Some ws"
    by (cases "extension_ws r") (simp_all add: send_command_begin_def)
  have kf: "k = command_id r + 1" "f = next_future r"
    and p1: "pending_commands r1 = (pending_commands r)(k \<mapsto> f)"
    and f1: "futures r1 = (futures r)(f := Pending)"
    using assms(2) ws
    by (auto simp: send_command_begin_def Let_def ws_send_def split: if_splits)
  show ?thesis
  proof (rule in_flightI)
    show "pending_commands r1 k = Some f \<and> futures r1 f = Pending
         \<or> pending_commands r1 k = None \<and> futures r1 f \<noteq> Pending"
      by (simp add: p1 f1)
  next
    fix k'
    assume a: "pending_commands r1 k' = Some f"
    show "k' = k"
    proof (rule ccontr)
      assume "k' \<noteq> k"
      with a have "pending_commands r k' = Some (next_future r)" by (simp add: p1 kf)
      with assms(1) show False by (auto simp: refs_allocated_def)
    qed
  qed
qed

lemma await_future_step:
  "ev \<noteq> TaskCancelled \<Longrightarrow> await_future r (ev # evs) k f = await_future (relay_step r ev) evs k f"
  by (cases ev) simp_all

lemma await_future_no_cancel:
  "TaskCancelled \<notin> set evs \<Longrightarrow>
     await_future r evs k f = send_command_wait (foldl relay_step r evs) k f"
proof (induction evs arbitrary: r)
  case Nil
  show ?case by simp
next
  case (Cons ev evs)
  then have "ev \<noteq> TaskCancelled" and "TaskCancelled \<notin> set evs" by auto
  then show ?case using Cons.IH [of "relay_step r ev"] by (simp add: await_future_step)
qed

lemma send_command_settles:
  assumes "refs_allocated r" and "send_command_begin r method params = (Inr (k, f), r1)"
    and "TaskCancelled \<notin> set evs"
  shows "pending_commands (snd (send_command r evs method params)) k = None
       \<and> futures (snd (send_command r evs method params)) f \<noteq> Pending"
proof -
  let ?r = "foldl relay_step r1 evs"
  have eq: "send_command r evs method params = send_command_wait ?r k f"
    using assms(2,3) by (simp add: send_command_def await_future_no_cancel)
  have "in_flight ?r k f"
    using in_flight_begin [OF assms(1,2)] by (rule in_flight_foldl)
  from in_flightD(1) [OF this] show ?thesis
    unfolding eq by (cases "futures ?r f") (simp_all add: send_command_wait_def)
qed

text \<open>
  The states the relay reaches keep every reference of the table allocated: a new relay
  does, and every event and every command preserves it.
\<close>

lemma next_future_resolve: "next_future (resolve r kv k f) = next_future r"
  by (simp add: resolve_def Let_def split: option.splits)

lemma refs_allocated_new: "refs_allocated (new_relay p)"
  by (simp add: refs_allocated_def new_relay_def)

lemma refs_allocated_shrink:
  assumes "refs_allocated r"
    and "\<And>k f. pending_commands r' k = Some f \<Longrightarrow> pending_commands r k = Some f"
    and "next_future r' = next_future r"
  shows "refs_allocated r'"
  using assms unfolding refs_allocated_def by metis

lemma refs_allocated_handle_message:
  assumes "refs_allocated r"
  shows "refs_allocated (handle_message r m)"
proof (cases m)
  case None
  then show ?thesis using assms by (simp add: handle_message_def)
next
  case (Some data)
  show ?thesis
  proof (cases "handle_message_body r data")
    case (Inl e)
    then show ?thesis using assms Some by (simp add: handle_message_def)
  next
    case (Inr r')
    then have eq: "handle_message r m = r'" using Some by (simp add: handle_message_def)
    from handle_message_body_cases [OF Inr] have "refs_allocated r'"
    proof (elim disjE exE conjE)
      assume "r' = r"
      then show ?thesis using assms by simp
    next
      fix kv k0 f0
      assume "r' = resolve r kv k0 f0"
      then show ?thesis
        by (intro refs_allocated_shrink [OF assms])
           (simp_all add: pending_resolve next_future_resolve split: if_splits)
    next
      fix ws p
      assume "ws_send r ws p = Inr r'"
      then have "r' = r\<lparr>sent := sent r @ [(ws, p)]\<rparr>"
        by (simp add: ws_send_def split: if_splits)
      then show ?thesis by (intro refs_allocated_shrink [OF assms]) simp_all
    qed
    then show ?thesis by (simp add: eq)
  qed
qed

lemma refs_allocated_relay_step:
  assumes "refs_allocated r"
  shows "refs_allocated (relay_step r ev)"
proof (cases ev)
  case (Received m)
  then show ?thesis using refs_allocated_handle_message [OF assms] by simp
qed (use assms in \<open>simp_all add: refs_allocated_def connection_opened_def connection_closed_def\<close>)

lemma refs_allocated_foldl:
  "refs_allocated r \<Longrightarrow> refs_allocated (foldl relay_step r evs)"
  by (induction evs arbitrary: r) (simp_all add: refs_allocated_relay_step)

lemma refs_allocated_begin:
  assumes "refs_allocated r"
  shows "refs_allocated (snd (send_command_begin r method params))"
proof (cases "extension_ws r")
  case None
  then show ?thesis using assms by (simp add: send_command_begin_def)
next
  case (Some ws)
  have "f < Suc (next_future r)" if "pending_commands r k = Some f" for k f
    using assms that by (auto simp: refs_allocated_def less_Suc_eq)
  then show ?thesis using Some
    by (auto simp: send_command_begin_def Let_def ws_send_def refs_allocated_def)
qed

lemma refs_allocated_wait:
  assumes "refs_allocated r"
  shows "refs_allocated (snd (send_command_wait r k f))"
proof (cases "futures r f")
  case Pending
  then show ?thesis
    by (intro refs_allocated_shrink [OF assms])
       (simp_all add: send_command_wait_def split: if_splits)
qed (use assms in \<open>simp_all add: send_command_wait_def\<close>)

lemma refs_allocated_await:
  "refs_allocated r \<Longrightarrow> refs_allocated (snd (await_future r evs k f))"
proof (induction evs arbitrary: r)
  case Nil
  then show ?case by (simp add: refs_allocated_wait)
next
  case (Cons ev evs)
  show ?case
  proof (cases "ev = TaskCancelled")
    case True
    have "refs_allocated (r\<lparr>futures := (futures r)(f := Cancelled)\<rparr>)"
      by (rule refs_allocated_shrink [OF Cons.prems]) simp_all
    then show ?thesis using True Cons.prems by (simp add: refs_allocated_wait)
  next
    case False
    then show ?thesis
      using Cons.IH [OF refs_allocated_relay_step [OF Cons.prems]]
      by (simp add: await_future_step)
  qed
qed

lemma refs_allocated_send_command:
  assumes "refs_allocated r"
  shows "refs_allocated (snd (send_command r evs method params))"
proof (cases "send_command_begin r method params")
  case (Pair res r1)
  have r1: "refs_allocated r1"
    using refs_allocated_begin [OF assms, of "method" "params"] Pair by simp
  show ?thesis
  proof (cases res)
    case (Inl e)
    then show ?thesis using Pair r1 by (simp add: send_command_def)
  next
    case (Inr kf)
    obtain k f where "kf = (k, f)" by (cases kf)
    then show ?thesis using Pair Inr refs_allocated_await [OF r1]
      by (simp add: send_command_def)
  qed
qed

text \<open>
  C4 at an input where the code leaves an entry behind. The transport of the peer is down
  but its handler has not cleared the reference yet: \<open>send_command\<close> allocates id 1, stores
  the entry, and the send raises \<open>ConnectionClosed\<close> out of the call. The wait and its timeout
  are never reached: the future stays pending and the entry stays in the table, also after
  the handler has ended and a new peer has connected.
\<close>

theorem send_failure_leaves_entry:
  "fst (send_command dropped_relay [] ''Page.navigate''
          (JObj [(''url'', JStr ''https://example.com'')])) = Inl ConnectionClosed
   \<and> command_id (snd (send_command dropped_relay [] ''Page.navigate''
          (JObj [(''url'', JStr ''https://example.com'')]))) = 1
   \<and> pending_commands (snd (send_command dropped_relay [] ''Page.navigate''
          (JObj [(''url'', JStr ''https://example.com'')]))) 1 = Some 0
   \<and> futures (snd (send_command dropped_relay [] ''Page.navigate''
          (JObj [(''url'', JStr ''https://example.com'')]))) 0 = Pending
   \<and> pending_commands
        (foldl relay_step
           (snd (send_command dropped_relay [] ''Page.navigate''
              (JObj [(''url'', JStr ''https://example.com'')])))
           [Disconnected 1, Connected 2 ''/extension'',
            Received (Some (JObj [(''method'', JStr ''ping'')]))]) 1 = Some 0"
  by (simp add: send_command_def send_command_begin_def Let_def ws_send_def
        dropped_relay_def connected_relay_def start_def new_relay_def
        connection_opened_def connection_closed_def RELAY_PATH_def handle_message_def)

section \<open>Properties of the browser tool\<close>

subsection \<open>No peer, no response\<close>

lemma send_command_not_connected:
  "extension_ws r = None \<Longrightarrow>
     send_command r evs method params = (Inl (RuntimeError not_connected), r)"
  by (simp add: send_command_def send_command_begin_def)

lemma relay_call_not_connected:
  "extension_ws r = None \<Longrightarrow>
     relay_call env r method params k = (Inl (RuntimeError not_connected), r)"
  by (simp add: relay_call_def send_command_not_connected)

lemma execute_not_connected:
  assumes "extension_ws r = None"
    and "action \<in> set [''navigate'', ''click'', ''type'', ''read'', ''screenshot'', ''evaluate'']"
  shows "error_text (fst (execute env r action kwargs))
         \<and> snd (execute env r action kwargs) = r"
proof -
  have nav: "error_text (fst (execute env r ''navigate'' kwargs))
             \<and> snd (execute env r ''navigate'' kwargs) = r"
    using assms(1)
    by (auto simp: execute_def execute_body_def navigate_def Let_def relay_call_not_connected
          is_Exception_def error_text_def startswith_def split: json.splits)
  have clk: "error_text (fst (execute env r ''click'' kwargs))
             \<and> snd (execute env r ''click'' kwargs) = r"
    using assms(1)
    by (auto simp: execute_def execute_body_def click_def Let_def relay_call_not_connected
          is_Exception_def error_text_def startswith_def)
  have tpe: "error_text (fst (execute env r ''type'' kwargs))
             \<and> snd (execute env r ''type'' kwargs) = r"
    using assms(1)
    by (auto simp: execute_def execute_body_def type_text_def Let_def relay_call_not_connected
          is_Exception_def error_text_def startswith_def)
  have rd: "error_text (fst (execute env r ''read'' kwargs))
             \<and> snd (execute env r ''read'' kwargs) = r"
    using assms(1)
    by (auto simp: execute_def execute_body_def read_def Let_def relay_call_not_connected
          is_Exception_def error_text_def startswith_def)
  have shot: "error_text (fst (execute env r ''screenshot'' kwargs))
             \<and> snd (execute env r ''screenshot'' kwargs) = r"
    using assms(1)
    by (auto simp: execute_def execute_body_def screenshot_def Let_def relay_call_not_connected
          is_Exception_def error_text_def startswith_def)
  have ev: "error_text (fst (execute env r ''evaluate'' kwargs))
             \<and> snd (execute env r ''evaluate'' kwargs) = r"
    using assms(1)
    by (auto simp: execute_def execute_body_def evaluate_def Let_def relay_call_not_connected
          is_Exception_def error_text_def startswith_def)
  from assms(2) nav clk tpe rd shot ev show ?thesis by auto
qed

lemma relay_call_raises:
  assumes "fst (send_command r (relay_events env) method params) = Inl e"
  shows "fst (relay_call env r method params k) = Inl e"
proof (cases "send_command r (relay_events env) method params")
  case (Pair res r')
  then have "res = Inl e" using assms by simp
  then show ?thesis using Pair by (simp add: relay_call_def)
qed

lemma send_command_timeout:
  assumes "extension_ws r = Some ws" and "ws_open r ws"
  shows "fst (send_command r [] method params) = Inl (TimeoutError ''Browser command timed out'')"
  using assms
  by (simp add: send_command_def send_command_begin_def Let_def ws_send_def
        send_command_wait_def)

lemma relay_call_timeout:
  assumes "extension_ws r = Some ws" and "ws_open r ws" and "relay_events env = []"
  shows "fst (relay_call env r method params k)
           = Inl (TimeoutError ''Browser command timed out'')"
  by (rule relay_call_raises) (simp add: assms(3) send_command_timeout [OF assms(1,2)])

lemma execute_timeout:
  assumes "extension_ws r = Some ws" and "ws_open r ws" and "relay_events env = []"
    and "action \<in> set [''navigate'', ''click'', ''type'', ''read'', ''screenshot'', ''evaluate'']"
  shows "error_text (fst (execute env r action kwargs))"
proof -
  note t = relay_call_timeout [OF assms(1,2,3)]
  have body: "error_text (fst (execute env r action kwargs))"
    if "fst (execute_body env r action kwargs) = Inl (TimeoutError ''Browser command timed out'')
        \<or> fst (execute_body env r action kwargs) = Inl AttributeError
        \<or> (\<exists>s. fst (execute_body env r action kwargs) = Inr s \<and> startswith s ''Error'')"
    using that
    by (cases "execute_body env r action kwargs")
       (auto simp: execute_def is_Exception_def error_text_def startswith_def)
  have "fst (execute_body env r action kwargs) = Inl (TimeoutError ''Browser command timed out'')
        \<or> fst (execute_body env r action kwargs) = Inl AttributeError
        \<or> (\<exists>s. fst (execute_body env r action kwargs) = Inr s \<and> startswith s ''Error'')"
    using assms(4) t
    by (auto simp: execute_body_def navigate_def click_def type_text_def read_def
          screenshot_def evaluate_def Let_def startswith_def split: json.splits)
  then show ?thesis by (rule body)
qed

lemma send_command_relay_error:
  assumes "extension_ws r = Some ws" and "ws_open r ws"
  shows "fst (send_command r
                [Received (Some (JObj [(''id'', JInt (command_id r + 1)), (''error'', err)]))]
                method params)
           = Inl (Exception err)"
  using assms
  by (simp add: send_command_def send_command_begin_def Let_def ws_send_def
        send_command_wait_def handle_message_def resolve_def)

lemma send_command_cancelled:
  assumes "extension_ws r = Some ws" and "ws_open r ws"
  shows "fst (send_command r (TaskCancelled # evs) method params) = Inl CancelledError"
  using assms
  by (simp add: send_command_def send_command_begin_def Let_def ws_send_def)

lemma execute_always_calls:
  assumes "action \<in> set [''read'', ''screenshot'']"
    and "\<And>method params. fst (send_command r (relay_events env) method params) = Inl e"
  shows "fst (execute_body env r action kwargs) = Inl e"
  using assms(1) relay_call_raises [OF assms(2)]
  by (auto simp: execute_body_def read_def screenshot_def)

subsection \<open>What can leave \<open>execute\<close>\<close>

lemma sound_resolve:
  "sound_future (futures r g) \<Longrightarrow> sound_future (futures (resolve r kv k f) g)"
  by (simp add: resolve_def Let_def sound_future_def is_Exception_def split: option.splits)

lemma sound_handle_message:
  assumes "sound_future (futures r g)"
  shows "sound_future (futures (handle_message r m) g)"
proof (cases m)
  case None
  then show ?thesis using assms by (simp add: handle_message_def)
next
  case (Some data)
  show ?thesis
  proof (cases "handle_message_body r data")
    case (Inl e)
    then show ?thesis using assms Some by (simp add: handle_message_def)
  next
    case (Inr r')
    then have eq: "handle_message r m = r'" using Some by (simp add: handle_message_def)
    from handle_message_body_cases [OF Inr] have "sound_future (futures r' g)"
    proof (elim disjE exE conjE)
      assume "r' = r"
      then show ?thesis using assms by simp
    next
      fix kv k0 f0
      assume "r' = resolve r kv k0 f0"
      then show ?thesis using sound_resolve [OF assms] by simp
    next
      fix ws p
      assume "ws_send r ws p = Inr r'"
      then have "r' = r\<lparr>sent := sent r @ [(ws, p)]\<rparr>"
        by (simp add: ws_send_def split: if_splits)
      then show ?thesis using assms by simp
    qed
    then show ?thesis by (simp add: eq)
  qed
qed

lemma sound_relay_step:
  assumes "sound_future (futures r g)"
  shows "sound_future (futures (relay_step r ev) g)"
proof (cases ev)
  case (Received m)
  then show ?thesis using sound_handle_message [OF assms] by simp
qed (use assms in \<open>simp_all add: connection_opened_def connection_closed_def\<close>)

lemma sound_foldl:
  "sound_future (futures r g) \<Longrightarrow> sound_future (futures (foldl relay_step r evs) g)"
  by (induction evs arbitrary: r) (simp_all add: sound_relay_step)

lemma send_command_wait_exn:
  assumes "sound_future (futures r f)" and "fst (send_command_wait r k f) = Inl e"
  shows "is_Exception e"
  using assms
  by (cases "futures r f")
     (auto simp: send_command_wait_def sound_future_def is_Exception_def)

lemma send_command_exn:
  assumes "TaskCancelled \<notin> set evs" and "fst (send_command r evs method params) = Inl e"
  shows "is_Exception e"
proof (cases "extension_ws r")
  case None
  then show ?thesis using assms(2)
    by (auto simp: send_command_def send_command_begin_def is_Exception_def)
next
  case (Some ws)
  show ?thesis
  proof (cases "ws_open r ws")
    case False
    then show ?thesis using assms(2) Some
      by (auto simp: send_command_def send_command_begin_def Let_def ws_send_def
            is_Exception_def)
  next
    case True
    obtain k f r1 where b: "send_command_begin r method params = (Inr (k, f), r1)"
      and p: "futures r1 f = Pending"
      using Some True
      by (simp add: send_command_begin_def Let_def ws_send_def)
    have s: "sound_future (futures (foldl relay_step r1 evs) f)"
      by (rule sound_foldl) (simp add: p sound_future_def)
    have "send_command r evs method params
            = send_command_wait (foldl relay_step r1 evs) k f"
      using b assms(1) by (simp add: send_command_def await_future_no_cancel)
    then show ?thesis using send_command_wait_exn [OF s] assms(2) by simp
  qed
qed

lemma relay_call_exn:
  assumes "TaskCancelled \<notin> set (relay_events env)"
    and "\<And>res x. k res = Inl x \<Longrightarrow> is_Exception x"
    and "fst (relay_call env r method params k) = Inl e"
  shows "is_Exception e"
proof (cases "send_command r (relay_events env) method params")
  case (Pair res r')
  show ?thesis
  proof (cases res)
    case (Inl x)
    then have "e = x" using Pair assms(3) by (simp add: relay_call_def)
    moreover have "is_Exception x"
      using send_command_exn [OF assms(1), of r "method" "params" x] Pair Inl by simp
    ultimately show ?thesis by simp
  next
    case (Inr v)
    then have "k v = Inl e" using Pair assms(3) by (simp add: relay_call_def)
    then show ?thesis by (rule assms(2))
  qed
qed

lemma py_in_exn: "py_in key j = Inl e \<Longrightarrow> is_Exception e"
  by (cases j) (auto simp: is_Exception_def)

lemma py_getitem_exn: "py_getitem j key = Inl e \<Longrightarrow> is_Exception e"
  by (cases j) (auto simp: is_Exception_def split: option.splits)

lemma py_get_exn: "py_get j key d = Inl e \<Longrightarrow> is_Exception e"
  by (cases j) (auto simp: is_Exception_def)

lemma exception_details_exn: "exception_details repr res = Inl e \<Longrightarrow> is_Exception e"
  by (auto simp: exception_details_def dest: py_in_exn py_getitem_exn
           split: if_splits sum.splits bool.splits)

lemma result_value_exn: "result_value res = Inl e \<Longrightarrow> is_Exception e"
  by (auto simp: result_value_def dest: py_get_exn split: sum.splits)

lemma navigate_exn:
  assumes "TaskCancelled \<notin> set (relay_events env)" and "fst (navigate env r kwargs) = Inl e"
  shows "is_Exception e"
proof (cases "kw kwargs ''url''")
  case (JStr u)
  show ?thesis
  proof (cases "u = []")
    case True
    then show ?thesis using assms(2) JStr by (simp add: navigate_def)
  next
    case False
    show ?thesis
      using assms(2) JStr False
      apply (simp add: navigate_def Let_def)
      apply (erule relay_call_exn [OF assms(1), rotated])
      apply simp
      done
  qed
qed (use assms(2) in \<open>auto simp: navigate_def Let_def is_Exception_def split: if_splits\<close>)

lemma details_branch_exn:
  assumes "(case exception_details repr res of
              Inl x \<Rightarrow> Inl x
            | Inr (Some d) \<Rightarrow> Inr (a d)
            | Inr None \<Rightarrow> b) = Inl e"
    and "b = Inl e \<Longrightarrow> is_Exception e"
  shows "is_Exception e"
  using assms
  by (auto dest: exception_details_exn split: sum.splits option.splits)

lemma click_exn:
  assumes "TaskCancelled \<notin> set (relay_events env)" and "fst (click env r kwargs) = Inl e"
  shows "is_Exception e"
proof (cases "truthy (kw kwargs ''selector'')")
  case False
  then show ?thesis using assms(2) by (simp add: click_def)
next
  case True
  show ?thesis
    using assms(2) True
    apply (simp add: click_def Let_def)
    apply (erule relay_call_exn [OF assms(1), rotated])
    apply (erule details_branch_exn)
    apply simp
    done
qed

lemma type_text_exn:
  assumes "TaskCancelled \<notin> set (relay_events env)" and "fst (type_text env r kwargs) = Inl e"
  shows "is_Exception e"
proof (cases "\<not> truthy (kw kwargs ''selector'') \<or> kw kwargs ''text'' = JNull")
  case True
  then show ?thesis using assms(2) by (auto simp: type_text_def)
next
  case False
  show ?thesis
    using assms(2) False
    apply (simp add: type_text_def Let_def)
    apply (erule relay_call_exn [OF assms(1), rotated])
    apply (erule details_branch_exn)
    apply simp
    done
qed

lemma read_exn:
  assumes "TaskCancelled \<notin> set (relay_events env)" and "fst (read env r kwargs) = Inl e"
  shows "is_Exception e"
  using assms(2)
  apply (simp add: read_def)
  apply (erule relay_call_exn [OF assms(1), rotated])
  apply (erule details_branch_exn)
  apply (auto dest: result_value_exn split: sum.splits)
  done

lemma screenshot_exn:
  assumes "TaskCancelled \<notin> set (relay_events env)" and "fst (screenshot env r) = Inl e"
  shows "is_Exception e"
  using assms(2)
  apply (simp add: screenshot_def)
  apply (erule relay_call_exn [OF assms(1), rotated])
  apply (auto simp: Let_def is_Exception_def dest: py_get_exn
              split: sum.splits option.splits if_splits)
  done

lemma evaluate_exn:
  assumes "TaskCancelled \<notin> set (relay_events env)" and "fst (evaluate env r kwargs) = Inl e"
  shows "is_Exception e"
proof (cases "truthy (kw kwargs ''script'')")
  case False
  then show ?thesis using assms(2) by (simp add: evaluate_def)
next
  case True
  show ?thesis
    using assms(2) True
    apply (simp add: evaluate_def Let_def)
    apply (erule relay_call_exn [OF assms(1), rotated])
    apply (erule details_branch_exn)
    apply (auto dest: result_value_exn split: sum.splits)
    done
qed

lemma execute_body_exn:
  assumes "TaskCancelled \<notin> set (relay_events env)"
    and "fst (execute_body env r action kwargs) = Inl e"
  shows "is_Exception e"
  using assms(2)
    navigate_exn [OF assms(1), of r kwargs e] click_exn [OF assms(1), of r kwargs e]
    type_text_exn [OF assms(1), of r kwargs e] read_exn [OF assms(1), of r kwargs e]
    screenshot_exn [OF assms(1), of r e] evaluate_exn [OF assms(1), of r kwargs e]
  by (simp add: execute_body_def split: if_splits)

lemma execute_returns_text:
  assumes "TaskCancelled \<notin> set (relay_events env)"
  shows "returns_text (fst (execute env r action kwargs))"
proof (cases "execute_body env r action kwargs")
  case (Pair res r')
  show ?thesis
  proof (cases res)
    case (Inl e)
    then have "is_Exception e" using execute_body_exn [OF assms, of r action kwargs e] Pair by simp
    then show ?thesis using Pair Inl by (simp add: execute_def returns_text_def)
  next
    case (Inr t)
    then show ?thesis using Pair by (simp add: execute_def returns_text_def)
  qed
qed

text \<open>
  C6, as the code has it. With no peer reference, \<open>send_command\<close> raises \<open>RuntimeError\<close> with
  the not-connected message and leaves the relay as it was: no id, no entry, no future,
  nothing sent; a relay whose \<open>start\<close> could not bind is in that state. Each of the six
  actions then returns a text that starts with \<open>Error\<close> and leaves the relay unchanged, and
  so does each of them when a peer took the command and nothing came back before the
  timeout. A read or a screenshot whose command the peer answers with an error returns
  \<open>Error executing <action>: <error>\<close>. Whatever the arguments and the peer do, \<open>execute\<close>
  returns a text as long as its task is not cancelled: every exception of its body that is
  an \<open>Exception\<close> becomes the text \<open>Error executing <action>: <message>\<close>. A cancellation of
  the task while the command waits is no \<open>Exception\<close>: \<open>CancelledError\<close> leaves \<open>execute\<close>.
\<close>

theorem execute_error_boundary:
  "(extension_ws r = None \<longrightarrow>
      send_command r evs method params =
        (Inl (RuntimeError ''Browser extension not connected. Please install the OpenClaw Browser Relay extension.''), r))
   \<and> send_command (start (new_relay p) False) evs method params =
        (Inl (RuntimeError ''Browser extension not connected. Please install the OpenClaw Browser Relay extension.''),
         start (new_relay p) False)
   \<and> (extension_ws r = None
        \<and> action \<in> set [''navigate'', ''click'', ''type'', ''read'', ''screenshot'', ''evaluate'']
        \<longrightarrow> error_text (fst (execute env r action kwargs))
            \<and> snd (execute env r action kwargs) = r)
   \<and> (extension_ws r = Some ws \<and> ws_open r ws \<and> relay_events env = []
        \<and> action \<in> set [''navigate'', ''click'', ''type'', ''read'', ''screenshot'', ''evaluate'']
        \<longrightarrow> error_text (fst (execute env r action kwargs)))
   \<and> (extension_ws r = Some ws \<and> ws_open r ws
        \<and> relay_events env =
            [Received (Some (JObj [(''id'', JInt (command_id r + 1)), (''error'', err)]))]
        \<and> action \<in> set [''read'', ''screenshot'']
        \<longrightarrow> fst (execute env r action kwargs) =
              Inr (''Error executing '' @ action @ '': '' @ py_str (json_repr env) err))
   \<and> (TaskCancelled \<notin> set (relay_events env) \<longrightarrow>
        returns_text (fst (execute env r action kwargs)))
   \<and> (fst (execute_body env r action kwargs) = Inl e \<and> is_Exception e \<longrightarrow>
        execute env r action kwargs =
          (Inr (''Error executing '' @ action @ '': ''
                  @ str_exn (json_repr env) (exn_message env) e),
           snd (execute_body env r action kwargs)))
   \<and> (extension_ws r = Some ws \<and> ws_open r ws
        \<and> relay_events env = TaskCancelled # evs'
        \<and> action \<in> set [''read'', ''screenshot'']
        \<longrightarrow> fst (execute env r action kwargs) = Inl CancelledError)"
proof -
  have a: "extension_ws (start (new_relay p) False) = None"
    by (simp add: start_def new_relay_def)
  have c1: "extension_ws r = None \<longrightarrow>
      send_command r evs method params = (Inl (RuntimeError ''Browser extension not connected. Please install the OpenClaw Browser Relay extension.''), r)"
    using send_command_not_connected [of r evs "method" "params"]
    by (simp add: not_connected_def)
  have c2: "send_command (start (new_relay p) False) evs method params =
        (Inl (RuntimeError ''Browser extension not connected. Please install the OpenClaw Browser Relay extension.''), start (new_relay p) False)"
    using send_command_not_connected [OF a, of evs "method" "params"]
    by (simp add: not_connected_def)
  have c3: "extension_ws r = None \<and> action \<in> set [''navigate'', ''click'', ''type'', ''read'', ''screenshot'', ''evaluate'']
        \<longrightarrow> error_text (fst (execute env r action kwargs))
            \<and> snd (execute env r action kwargs) = r"
    using execute_not_connected [of r action env kwargs] by blast
  have c4: "extension_ws r = Some ws \<and> ws_open r ws \<and> relay_events env = []
        \<and> action \<in> set [''navigate'', ''click'', ''type'', ''read'', ''screenshot'', ''evaluate'']
        \<longrightarrow> error_text (fst (execute env r action kwargs))"
    using execute_timeout [of r ws env action kwargs] by blast
  have raised: "execute env r action kwargs =
          (Inr (''Error executing '' @ action @ '': ''
                  @ str_exn (json_repr env) (exn_message env) x),
           snd (execute_body env r action kwargs))"
    if "fst (execute_body env r action kwargs) = Inl x" and "is_Exception x" for x
    using that by (cases "execute_body env r action kwargs") (simp add: execute_def)
  have c5: "extension_ws r = Some ws \<and> ws_open r ws
        \<and> relay_events env =
            [Received (Some (JObj [(''id'', JInt (command_id r + 1)), (''error'', err)]))]
        \<and> action \<in> set [''read'', ''screenshot'']
        \<longrightarrow> fst (execute env r action kwargs) =
              Inr (''Error executing '' @ action @ '': '' @ py_str (json_repr env) err)"
  proof (intro impI, elim conjE)
    assume h: "extension_ws r = Some ws" "ws_open r ws"
      "relay_events env =
         [Received (Some (JObj [(''id'', JInt (command_id r + 1)), (''error'', err)]))]"
      "action \<in> set [''read'', ''screenshot'']"
    have "fst (execute_body env r action kwargs) = Inl (Exception err)"
      by (rule execute_always_calls [OF h(4)])
         (simp add: h(3) send_command_relay_error [OF h(1,2)])
    from raised [OF this] show "fst (execute env r action kwargs) =
              Inr (''Error executing '' @ action @ '': '' @ py_str (json_repr env) err)"
      by (simp add: is_Exception_def)
  qed
  have c6: "TaskCancelled \<notin> set (relay_events env) \<longrightarrow>
        returns_text (fst (execute env r action kwargs))"
    using execute_returns_text [of env r action kwargs] by blast
  have c7: "fst (execute_body env r action kwargs) = Inl e \<and> is_Exception e \<longrightarrow>
        execute env r action kwargs =
          (Inr (''Error executing '' @ action @ '': ''
                  @ str_exn (json_repr env) (exn_message env) e),
           snd (execute_body env r action kwargs))"
    using raised [of e] by blast
  have c8: "extension_ws r = Some ws \<and> ws_open r ws
        \<and> relay_events env = TaskCancelled # evs'
        \<and> action \<in> set [''read'', ''screenshot'']
        \<longrightarrow> fst (execute env r action kwargs) = Inl CancelledError"
  proof (intro impI, elim conjE)
    assume h: "extension_ws r = Some ws" "ws_open r ws"
      "relay_events env = TaskCancelled # evs'"
      "action \<in> set [''read'', ''screenshot'']"
    have "fst (execute_body env r action kwargs) = Inl CancelledError"
      by (rule execute_always_calls [OF h(4)])
         (simp add: h(3) send_command_cancelled [OF h(1,2)])
    then show "fst (execute env r action kwargs) = Inl CancelledError"
      by (cases "execute_body env r action kwargs") (simp add: execute_def is_Exception_def)
  qed
  from c1 c2 c3 c4 c5 c6 c7 c8 show ?thesis by blast
qed

theorem execute_error_boundary_witness:
  "send_command (start (new_relay DEFAULT_RELAY_PORT) False) [] ''Page.navigate''
      (JObj [(''url'', JStr ''https://example.com'')])
     = (Inl (RuntimeError ''Browser extension not connected. Please install the OpenClaw Browser Relay extension.''), start (new_relay DEFAULT_RELAY_PORT) False)
   \<and> execute (quiet_env []) (start (new_relay DEFAULT_RELAY_PORT) False) ''navigate''
        [(''url'', JStr ''example.com'')]
     = (Inr ''Error executing navigate: Browser extension not connected. Please install the OpenClaw Browser Relay extension.'',
        start (new_relay DEFAULT_RELAY_PORT) False)
   \<and> error_text (fst (execute (quiet_env []) (start (new_relay DEFAULT_RELAY_PORT) False)
                          ''screenshot'' []))
   \<and> error_text (fst (execute (quiet_env []) connected_relay ''click''
                          [(''selector'', JStr ''#go'')]))
   \<and> fst (execute (quiet_env [Received (Some (JObj [(''id'', JInt 1),
                                                     (''error'', JStr ''No tab attached'')]))])
             connected_relay ''read'' [])
       = Inr ''Error executing read: No tab attached''
   \<and> returns_text (fst (execute (quiet_env [reply 1 JNull]) connected_relay ''evaluate''
                            [(''script'', JStr ''1 + 1'')]))
   \<and> fst (execute (quiet_env [TaskCancelled]) connected_relay ''read'' [])
       = Inl CancelledError"
proof -
  let ?r = "start (new_relay DEFAULT_RELAY_PORT) False"
  let ?kw = "[(''url'', JStr ''example.com'')]"
  let ?err = "[Received (Some (JObj [(''id'', JInt 1), (''error'', JStr ''No tab attached'')]))]"
  have none: "extension_ws ?r = None" by (simp add: start_def new_relay_def)
  have conn: "extension_ws connected_relay = Some 1" "ws_open connected_relay 1"
    "command_id connected_relay = 0"
    by (simp_all add: connected_relay_def start_def new_relay_def connection_opened_def
          RELAY_PATH_def)
  have body: "execute_body (quiet_env []) ?r ''navigate'' ?kw
                = (Inl (RuntimeError not_connected), ?r)"
    by (simp add: execute_body_def navigate_def kw_def Let_def relay_call_def
          send_command_def send_command_begin_def none)
  have exc: "is_Exception (RuntimeError not_connected)" by (simp add: is_Exception_def)
  have shot: "''screenshot'' \<in> set [''navigate'', ''click'', ''type'', ''read'', ''screenshot'', ''evaluate'']"
    and clk: "''click'' \<in> set [''navigate'', ''click'', ''type'', ''read'', ''screenshot'', ''evaluate'']"
    and rd: "''read'' \<in> set [''read'', ''screenshot'']"
    by simp_all
  have ev0: "relay_events (quiet_env []) = []"
    and ev1: "relay_events (quiet_env ?err)
                = [Received (Some (JObj [(''id'', JInt (command_id connected_relay + 1)),
                                         (''error'', JStr ''No tab attached'')]))]"
    and ev2: "TaskCancelled \<notin> set (relay_events (quiet_env [reply 1 JNull]))"
    and ev3: "relay_events (quiet_env [TaskCancelled]) = TaskCancelled # []"
    by (simp_all add: quiet_env_def reply_def conn)
  note t1 = execute_error_boundary
              [of ?r "[]" "''Page.navigate''" "JObj [(''url'', JStr ''https://example.com'')]"
                  DEFAULT_RELAY_PORT "''navigate''" "quiet_env []" ?kw 1 JNull
                  "RuntimeError not_connected" "[]"]
  note t2 = execute_error_boundary
              [of ?r "[]" "''Page.navigate''" "JObj [(''url'', JStr ''https://example.com'')]"
                  DEFAULT_RELAY_PORT "''screenshot''" "quiet_env []" "[]" 1 JNull
                  "RuntimeError not_connected" "[]"]
  note t3 = execute_error_boundary
              [of connected_relay "[]" "''Page.navigate''" JNull
                  DEFAULT_RELAY_PORT "''click''" "quiet_env []" "[(''selector'', JStr ''#go'')]"
                  1 JNull "RuntimeError not_connected" "[]"]
  note t4 = execute_error_boundary
              [of connected_relay "[]" "''Page.navigate''" JNull
                  DEFAULT_RELAY_PORT "''read''" "quiet_env ?err" "[]"
                  1 "JStr ''No tab attached''" "RuntimeError not_connected" "[]"]
  note t5 = execute_error_boundary
              [of connected_relay "[]" "''Page.navigate''" JNull
                  DEFAULT_RELAY_PORT "''evaluate''" "quiet_env [reply 1 JNull]"
                  "[(''script'', JStr ''1 + 1'')]"
                  1 JNull "RuntimeError not_connected" "[]"]
  note t6 = execute_error_boundary
              [of connected_relay "[]" "''Page.navigate''" JNull
                  DEFAULT_RELAY_PORT "''read''" "quiet_env [TaskCancelled]" "[]"
                  1 JNull "RuntimeError not_connected" "[]"]
  have a: "send_command ?r [] ''Page.navigate'' (JObj [(''url'', JStr ''https://example.com'')])
     = (Inl (RuntimeError ''Browser extension not connected. Please install the OpenClaw Browser Relay extension.''), ?r)"
    using t1 by blast
  have b0: "execute (quiet_env []) ?r ''navigate'' ?kw
     = (Inr (''Error executing '' @ ''navigate'' @ '': ''
          @ str_exn (json_repr (quiet_env [])) (exn_message (quiet_env []))
              (RuntimeError not_connected)),
        snd (execute_body (quiet_env []) ?r ''navigate'' ?kw))"
    using t1 body exc by simp
  have b: "execute (quiet_env []) ?r ''navigate'' ?kw
     = (Inr ''Error executing navigate: Browser extension not connected. Please install the OpenClaw Browser Relay extension.'', ?r)"
    using b0 by (simp add: body not_connected_def)
  have c: "error_text (fst (execute (quiet_env []) ?r ''screenshot'' []))"
    using t2 none shot by blast
  have d: "error_text (fst (execute (quiet_env []) connected_relay ''click''
                          [(''selector'', JStr ''#go'')]))"
    using t3 conn(1,2) ev0 clk by blast
  have e0: "fst (execute (quiet_env ?err) connected_relay ''read'' [])
       = Inr (''Error executing '' @ ''read'' @ '': ''
                @ py_str (json_repr (quiet_env ?err)) (JStr ''No tab attached''))"
    using t4 conn(1,2) ev1 rd by blast
  have e: "fst (execute (quiet_env ?err) connected_relay ''read'' [])
       = Inr ''Error executing read: No tab attached''"
    using e0 by simp
  have f: "returns_text (fst (execute (quiet_env [reply 1 JNull]) connected_relay ''evaluate''
                            [(''script'', JStr ''1 + 1'')]))"
    using t5 ev2 by blast
  have g: "fst (execute (quiet_env [TaskCancelled]) connected_relay ''read'' [])
       = Inl CancelledError"
    using t6 conn(1,2) ev3 rd by blast
  from a b c d e f g show ?thesis by blast
qed

text \<open>
  C6 as the specification states it does not hold: a peer is connected, a screenshot's
  command is waiting, and the task is cancelled. \<open>CancelledError\<close> leaves \<open>execute\<close>; no text is
  returned.
\<close>

theorem execute_error_boundary_counterexample:
  "fst (execute (quiet_env [TaskCancelled]) connected_relay ''screenshot'' [])
     = Inl CancelledError"
  by (simp add: execute_def execute_body_def screenshot_def relay_call_def is_Exception_def
        send_command_def send_command_begin_def Let_def ws_send_def
        quiet_env_def connected_relay_def start_def new_relay_def connection_opened_def
        RELAY_PATH_def)

subsection \<open>Reading\<close>

text \<open>
  C7. A read whose relay command returns a result without \<open>exceptionDetails\<close> and with the
  text \<open>text\<close> as \<open>result.value\<close> returns the first 2000 characters of \<open>text\<close>: exactly 2000
  characters when \<open>text\<close> is longer, the whole of \<open>text\<close> otherwise.
\<close>

theorem read_caps_at_2000:
  assumes "send_command r (relay_events env) ''Runtime.evaluate''
             (JObj [(''expression'', JStr (read_expression env kwargs)),
                    (''returnByValue'', JBool True)]) = (Inr (JObj res), r')"
    and "map_of res ''exceptionDetails'' = None"
    and "map_of res ''result'' = Some (JObj rv)"
    and "map_of rv ''value'' = Some (JStr text)"
  shows "execute env r ''read'' kwargs = (Inr (take 2000 text), r')
       \<and> (2000 < length text \<longrightarrow>
            fst (execute env r ''read'' kwargs) = Inr (take 2000 text)
            \<and> length (take 2000 text) = 2000)
       \<and> (length text \<le> 2000 \<longrightarrow> fst (execute env r ''read'' kwargs) = Inr text)"
proof -
  have ne: "res \<noteq> []" using assms(3) by auto
  have det: "exception_details (json_repr env) (JObj res) = Inr None"
    using assms(2) ne by (simp add: exception_details_def)
  have val: "result_value (JObj res) = Inr (JStr text)"
    using assms(3,4) by (simp add: result_value_def)
  have "execute env r ''read'' kwargs = (Inr (take 2000 text), r')"
    using assms(1) det val
    by (simp add: execute_def execute_body_def read_def relay_call_def)
  then show ?thesis by simp
qed

theorem read_caps_at_2000_witness:
  "fst (execute (quiet_env [reply 1 (JObj [(''result'', JObj [(''type'', JStr ''string''),
                                                               (''value'', JStr page_text)])])])
         connected_relay ''read'' [])
     = Inr (replicate 2000 CHR ''a'')
   \<and> fst (execute (quiet_env [reply 1 (JObj [(''result'', JObj [(''type'', JStr ''string''),
                                                               (''value'', JStr ''short'')])])])
         connected_relay ''read'' [(''selector'', JStr ''h1'')])
     = Inr ''short''"
proof -
  let ?res = "\<lambda>t. [(''result'', JObj [(''type'', JStr ''string''), (''value'', JStr t)])]"
  let ?env = "\<lambda>t. quiet_env [reply 1 (JObj (?res t))]"
  have call: "send_command connected_relay (relay_events (?env t)) ''Runtime.evaluate''
             (JObj [(''expression'', JStr (read_expression (?env t) kw0)),
                    (''returnByValue'', JBool True)])
           = (Inr (JObj (?res t)),
              snd (send_command connected_relay (relay_events (?env t)) ''Runtime.evaluate''
                (JObj [(''expression'', JStr (read_expression (?env t) kw0)),
                       (''returnByValue'', JBool True)])))" for t kw0
    by (simp add: send_command_def send_command_begin_def send_command_wait_def Let_def
          connected_relay_def start_def new_relay_def connection_opened_def RELAY_PATH_def
          ws_send_def quiet_env_def reply_def handle_message_def resolve_def)
  have a: "map_of (?res t) ''exceptionDetails'' = None" for t by simp
  have b: "map_of (?res t) ''result'' = Some (JObj [(''type'', JStr ''string''), (''value'', JStr t)])"
    for t by simp
  have c: "map_of [(''type'', JStr ''string''), (''value'', JStr t)] ''value'' = Some (JStr t)"
    for t by simp
  have long: "2000 < length page_text" by (simp add: page_text_def)
  have short: "length ''short'' \<le> 2000" by simp
  from read_caps_at_2000 [OF call a b c, of page_text "[]"] long
  have "fst (execute (?env page_text) connected_relay ''read'' []) = Inr (take 2000 page_text)"
    by blast
  moreover have "take 2000 page_text = replicate 2000 CHR ''a''"
    by (simp add: page_text_def)
  moreover from read_caps_at_2000 [OF call a b c, of "''short''" "[(''selector'', JStr ''h1'')]"] short
  have "fst (execute (?env ''short'') connected_relay ''read'' [(''selector'', JStr ''h1'')])
          = Inr ''short''"
    by blast
  ultimately show ?thesis by simp
qed

subsection \<open>Navigating\<close>












end
